theory Spec2Isabelle
  imports Main "HOL-Library.Word" "HOL-Library.Multiset" "HOL-Library.Sublist"
    "HOL-Library.AList" "HOL-Library.List_Lexorder" "HOL-Library.Product_Lexorder"
begin

section \<open>Wide strings and the character classification of the C runtime\<close>

text \<open>
  The program is a Win32 program: \<open>wchar_t\<close> is an unsigned 16-bit code unit and
  \<open>std::wstring\<close> a sequence of them; \<open>std::string\<close> is a sequence of bytes;
  \<open>unsigned long long\<close> is 64 bits wide and wraps around.
\<close>

type_synonym wchar = "16 word"
type_synonym wstring = "wchar list"
type_synonym byte = "8 word"
type_synonym bytes = "byte list"
type_synonym u64 = "64 word"

text \<open>A wide literal \<open>L"..."\<close> with ASCII content.\<close>

definition wstr :: "string \<Rightarrow> wstring" where
  "wstr s = map (\<lambda>c. of_nat (of_char c)) s"

text \<open>A narrow literal \<open>"..."\<close>.\<close>

definition bstr :: "string \<Rightarrow> bytes" where
  "bstr s = map (\<lambda>c. of_nat (of_char c)) s"

text \<open>
  \<open>iswdigit\<close> and \<open>towlower\<close> are the C runtime's. The program never calls
  \<open>setlocale\<close>, so they are modelled in the "C" locale over the ASCII range: the decimal
  digits are \<open>L'0'\<close> .. \<open>L'9'\<close>, and only \<open>L'A'\<close> .. \<open>L'Z'\<close> are folded.
\<close>

definition iswdigit :: "wchar \<Rightarrow> bool" where
  "iswdigit c \<longleftrightarrow> 0x30 \<le> c \<and> c \<le> 0x39"

definition towlower :: "wchar \<Rightarrow> wchar" where
  "towlower c = (if 0x41 \<le> c \<and> c \<le> 0x5A then c + 0x20 else c)"

section \<open>The natural comparison (main.cpp, lines 47-78)\<close>

text \<open>\<open>IsSep\<close>: space, underscore, hyphen, period.\<close>

definition IsSep :: "wchar \<Rightarrow> bool" where
  "IsSep c \<longleftrightarrow> c = 0x20 \<or> c = 0x5F \<or> c = 0x2D \<or> c = 0x2E"

text \<open>
  A cursor \<open>i\<close> into \<open>a\<close> is modelled by the suffix of \<open>a\<close> that starts at \<open>i\<close>:
  \<open>i < na\<close> is "the suffix is not empty", \<open>a[i]\<close> is its head, \<open>++i\<close> its tail and
  \<open>na - i\<close> its length.

  \<open>skip_seps\<close> is the loop \<open>while (i < na && IsSep(a[i])) ++i;\<close>.
\<close>

fun skip_seps :: "wstring \<Rightarrow> wstring" where
  "skip_seps [] = []"
| "skip_seps (c # cs) = (if IsSep c then skip_seps cs else c # cs)"

text \<open>
  \<open>digit_run va s\<close> is the loop
  \<open>while (ia < na && iswdigit(a[ia])) { va = va*10 + (unsigned)(a[ia]-L'0'); ++ia; }\<close>:
  it returns the accumulated 64-bit value and the suffix at \<open>ia\<close>. The difference
  \<open>a[ia]-L'0'\<close> is computed in \<open>int\<close>, converted to \<open>unsigned\<close> (32 bits) and then
  widened to \<open>unsigned long long\<close>; the multiplication and the addition wrap modulo
  \<open>2^64\<close>.
\<close>

fun digit_run :: "u64 \<Rightarrow> wstring \<Rightarrow> u64 \<times> wstring" where
  "digit_run va [] = (va, [])"
| "digit_run va (c # cs) =
     (if iswdigit c
      then digit_run (va * 10 + ucast ((ucast c :: 32 word) - 0x30)) cs
      else (va, c # cs))"

lemma length_skip_seps: "length (skip_seps s) \<le> length s"
  by (induction s) auto

lemma length_digit_run: "length (snd (digit_run v s)) \<le> length s"
  by (induction s arbitrary: v) (auto intro: le_SucI)

lemma length_digit_run_less:
  "s \<noteq> [] \<Longrightarrow> iswdigit (hd s) \<Longrightarrow> length (snd (digit_run v s)) < length s"
  by (cases s) (auto simp: length_digit_run less_Suc_eq_le)

text \<open>
  \<open>NaturalLess a b\<close> is the outer loop started with the cursors at the suffixes \<open>a\<close> and
  \<open>b\<close>; the call \<open>NaturalLess(a, b)\<close> of the program starts it at the whole strings. The
  first test is the loop condition \<open>i < na && j < nb\<close>, whose failure leads to the final
  \<open>return (na - i) < (nb - j)\<close>; so does the \<open>break\<close> after the separators are skipped.
\<close>

function NaturalLess :: "wstring \<Rightarrow> wstring \<Rightarrow> bool" where
  "NaturalLess a b =
     (if a = [] \<or> b = [] then length a < length b
      else if skip_seps a = [] \<or> skip_seps b = []
        then length (skip_seps a) < length (skip_seps b)
      else if iswdigit (hd (skip_seps a)) \<and> iswdigit (hd (skip_seps b)) then
        (let va = fst (digit_run 0 (skip_seps a));
             vb = fst (digit_run 0 (skip_seps b));
             ra = snd (digit_run 0 (skip_seps a));
             rb = snd (digit_run 0 (skip_seps b));
             lena = length (skip_seps a) - length ra;
             lenb = length (skip_seps b) - length rb
         in if va \<noteq> vb then va < vb
            else if lena \<noteq> lenb then lena < lenb
            else NaturalLess ra rb)
      else
        (let ca = towlower (hd (skip_seps a));
             cb = towlower (hd (skip_seps b))
         in if ca \<noteq> cb then ca < cb
            else NaturalLess (tl (skip_seps a)) (tl (skip_seps b))))"
  by pat_completeness auto
termination
proof (relation "measure (\<lambda>(a, b). length a)")
  show "wf (measure (\<lambda>(a, b). length a))" by simp
next
  fix a b :: wstring and va vb ra rb lena lenb
  assume "\<not> (skip_seps a = [] \<or> skip_seps b = [])"
    and "iswdigit (hd (skip_seps a)) \<and> iswdigit (hd (skip_seps b))"
    and "ra = snd (digit_run 0 (skip_seps a))"
  then have "length ra < length (skip_seps a)"
    by (simp add: length_digit_run_less)
  also have "\<dots> \<le> length a" by (rule length_skip_seps)
  finally show "((ra, rb), (a, b)) \<in> measure (\<lambda>(a, b). length a)" by simp
next
  fix a b :: wstring and ca cb
  assume "\<not> (skip_seps a = [] \<or> skip_seps b = [])"
  then have "length (tl (skip_seps a)) < length (skip_seps a)" by simp
  also have "\<dots> \<le> length a" by (rule length_skip_seps)
  finally show "((tl (skip_seps a), tl (skip_seps b)), (a, b)) \<in> measure (\<lambda>(a, b). length a)"
    by simp
qed

declare NaturalLess.simps [simp del]

text \<open>
  The comparator of the specification: \<open>Less\<close> when \<open>NaturalLess a b\<close>, \<open>Greater\<close> when
  \<open>NaturalLess b a\<close>, and \<open>Equal\<close> when neither holds.
\<close>

datatype ordering = Less | Equal | Greater

definition compare :: "wstring \<Rightarrow> wstring \<Rightarrow> ordering" where
  "compare a b = (if NaturalLess a b then Less else if NaturalLess b a then Greater else Equal)"

text \<open>
  The specification's reading of a digit run, for comparison with \<open>digit_run\<close>: the
  numeric magnitude of the maximal run of digits at the cursor, as an unbounded natural
  number, and the number of digits of the run.
\<close>

fun magnitude_from :: "nat \<Rightarrow> wstring \<Rightarrow> nat" where
  "magnitude_from n [] = n"
| "magnitude_from n (c # cs) =
     (if iswdigit c then magnitude_from (n * 10 + (unat c - 48)) cs else n)"

definition magnitude :: "wstring \<Rightarrow> nat" where
  "magnitude s = magnitude_from 0 s"

definition run_length :: "wstring \<Rightarrow> nat" where
  "run_length s = length (takeWhile iswdigit s)"

section \<open>The file system as the program sees it\<close>

text \<open>
  The program reaches the file system through \<open>std::filesystem\<close> and the file streams.
  The model keeps what these report. A directory entry is a regular file with its
  content, a subdirectory, something else (a device, a socket), or an entry whose status
  cannot be determined (a symbolic link whose target is missing or cannot be reached);
  this is the status after symbolic links are followed, as \<open>is_regular_file\<close> sees it.
  For an entry of the last kind the status query reports an error: \<open>is_regular_file(ec)\<close>
  returns false and sets \<open>ec\<close>, and \<open>exists\<close> returns false. A folder path names nothing,
  something that is not a directory, or a directory with its entries in listing order; the
  flag of \<open>Dir\<close> says whether the directory can be enumerated. \<open>write_denied\<close> stands for
  whatever makes the platform refuse to create or overwrite a file (permissions, a lock, a
  full disk), and \<open>exe_dir\<close> for the result of \<open>GetExeDir\<close>.

  An entry is looked up by its exact name, and two paths are the same file when folder and
  name are equal. A listing is taken at once: the model has no failure in the middle of an
  iteration.
\<close>

datatype node = RegularFile bytes | SubDirectory | OtherNode | Unresolved

datatype dir_status = NoSuchPath | NotADirectory | Dir bool "(wstring \<times> node) list"

record world =
  lookup_dir :: "wstring \<Rightarrow> dir_status"
  exe_dir :: wstring
  write_denied :: "wstring \<Rightarrow> wstring \<Rightarrow> bool"

definition is_regular_file :: "node \<Rightarrow> bool" where
  "is_regular_file n = (case n of RegularFile _ \<Rightarrow> True | _ \<Rightarrow> False)"

text \<open>Whether the status query of the entry leaves an error in its \<open>error_code\<close> argument.\<close>

definition status_fails :: "node \<Rightarrow> bool" where
  "status_fails n = (case n of Unresolved \<Rightarrow> True | _ \<Rightarrow> False)"

text \<open>The entry \<open>folder / name\<close>, if there is one.\<close>

definition entry :: "world \<Rightarrow> wstring \<Rightarrow> wstring \<Rightarrow> node option" where
  "entry w folder name =
     (case lookup_dir w folder of Dir _ es \<Rightarrow> map_of es name | _ \<Rightarrow> None)"

definition fs_exists :: "world \<Rightarrow> wstring \<Rightarrow> wstring \<Rightarrow> bool" where
  "fs_exists w folder name \<longleftrightarrow>
     (case entry w folder name of None \<Rightarrow> False | Some n \<Rightarrow> \<not> status_fails n)"

text \<open>Writing the whole content of \<open>folder / name\<close>, creating the entry if it is missing.\<close>

definition write_file :: "world \<Rightarrow> wstring \<Rightarrow> wstring \<Rightarrow> bytes \<Rightarrow> world" where
  "write_file w folder name content =
     (case lookup_dir w folder of
        Dir r es \<Rightarrow>
          w\<lparr>lookup_dir := (lookup_dir w)(folder := Dir r (AList.update name (RegularFile content) es))\<rparr>
      | _ \<Rightarrow> w)"

text \<open>
  Opening \<open>folder / name\<close> for writing, as the constructor of \<open>std::ofstream\<close> does: the
  folder must be a directory, the name must be free, a regular file or a link whose
  target is missing (the file is then created through the link), and the platform must
  not refuse.
\<close>

definition open_for_write :: "world \<Rightarrow> wstring \<Rightarrow> wstring \<Rightarrow> bool" where
  "open_for_write w folder name \<longleftrightarrow>
     (case lookup_dir w folder of
        Dir _ es \<Rightarrow>
          (case map_of es name of
             None \<Rightarrow> \<not> write_denied w folder name
           | Some n \<Rightarrow> (is_regular_file n \<or> status_fails n) \<and> \<not> write_denied w folder name)
      | _ \<Rightarrow> False)"

section \<open>Scanning a folder (main.cpp, lines 84-95)\<close>

text \<open>
  \<open>s.rfind(pat, pos)\<close> of the standard library: the highest position not above \<open>pos\<close> at
  which \<open>pat\<close> occurs in \<open>s\<close>; \<open>None\<close> is \<open>npos\<close>.
\<close>

fun rfind_from :: "'a list \<Rightarrow> 'a list \<Rightarrow> nat \<Rightarrow> nat option" where
  "rfind_from s pat 0 = (if take (length pat) s = pat then Some 0 else None)"
| "rfind_from s pat (Suc i) =
     (if take (length pat) (drop (Suc i) s) = pat then Some (Suc i) else rfind_from s pat i)"

definition rfind :: "'a list \<Rightarrow> 'a list \<Rightarrow> nat \<Rightarrow> nat option" where
  "rfind s pat pos =
     (if length s < length pat then None
      else rfind_from s pat (min pos (length s - length pat)))"

text \<open>
  The \<open>for\<close> loop over the directory entries, with the state of the variable \<open>ec\<close>
  (set or clear) and the vector \<open>files\<close> as accumulators. The body starts with
  \<open>if (ec) break;\<close>. The call \<open>entry.is_regular_file(ec)\<close> writes \<open>ec\<close>: it clears it
  when the status of the entry is determined and sets it otherwise, and nothing else
  writes \<open>ec\<close> before the test at the start of the next round. A regular file whose name
  has \<open>name.rfind(L"bf2savefile", 0) != 0\<close> is skipped, any other regular file is pushed
  back.
\<close>

fun scan_entries :: "(wstring \<times> node) list \<Rightarrow> bool \<Rightarrow> wstring list \<Rightarrow> wstring list" where
  "scan_entries [] ec files = files"
| "scan_entries ((name, n) # es) ec files =
     (if ec then files
      else if is_regular_file n
      then (if rfind name (wstr ''bf2savefile'') 0 \<noteq> Some 0
            then scan_entries es (status_fails n) files
            else scan_entries es (status_fails n) (files @ [name]))
      else scan_entries es (status_fails n) files)"

text \<open>
  \<open>scan\<close> is \<open>PopulateFileDropdown\<close> up to the call of \<open>std::sort\<close>: the early return when
  the folder does not exist or is not a directory, and the loop. A directory that cannot
  be enumerated gives an end iterator, with or without an error code, so the loop body
  never runs; when the iterator is constructed, \<open>ec\<close> is clear.
\<close>

definition scan :: "world \<Rightarrow> wstring \<Rightarrow> wstring list" where
  "scan w folder =
     (case lookup_dir w folder of
        NoSuchPath \<Rightarrow> []
      | NotADirectory \<Rightarrow> []
      | Dir readable es \<Rightarrow> if readable then scan_entries es False [] else [])"

section \<open>Ranking (main.cpp, line 97)\<close>

text \<open>
  The program ranks with \<open>std::sort(files.begin(), files.end(), NaturalLess)\<close>. The
  standard library is not part of the program; what the C++ standard promises of
  \<open>std::sort\<close> is a relation between the input and the output: the output is a permutation
  of the input in which no element is less than an element before it. The standard does
  not promise that equivalent elements keep their order (that is \<open>std::stable_sort\<close>).
  The promise holds only for a comparison that is a strict weak ordering.
\<close>

definition strict_weak_order :: "('a \<Rightarrow> 'a \<Rightarrow> bool) \<Rightarrow> bool" where
  "strict_weak_order lt \<longleftrightarrow>
     (\<forall>x. \<not> lt x x) \<and>
     (\<forall>x y z. lt x y \<and> lt y z \<longrightarrow> lt x z) \<and>
     (\<forall>x y z. \<not> lt x y \<and> \<not> lt y x \<and> \<not> lt y z \<and> \<not> lt z y
        \<longrightarrow> \<not> lt x z \<and> \<not> lt z x)"

definition std_sort_post :: "('a \<Rightarrow> 'a \<Rightarrow> bool) \<Rightarrow> 'a list \<Rightarrow> 'a list \<Rightarrow> bool" where
  "std_sort_post lt xs ys \<longleftrightarrow> mset ys = mset xs \<and> sorted_wrt (\<lambda>x y. \<not> lt y x) ys"

text \<open>\<open>rank names out\<close>: \<open>out\<close> is a result that \<open>std::sort\<close> may leave for \<open>names\<close>.\<close>

definition rank :: "wstring list \<Rightarrow> wstring list \<Rightarrow> bool" where
  "rank names out \<longleftrightarrow> std_sort_post NaturalLess names out"

text \<open>
  The specification's ranking, for comparison: a sort is stable when the names that
  compare Equal to any given name appear in the output in their input order.
\<close>

definition stable_wrt :: "wstring list \<Rightarrow> wstring list \<Rightarrow> bool" where
  "stable_wrt names out \<longleftrightarrow>
     list_all (\<lambda>k. filter (\<lambda>x. compare x k = Equal) out = filter (\<lambda>x. compare x k = Equal) names)
       names"

text \<open>\<open>PopulateFileDropdown\<close>: the items that the combo box may hold after the call.\<close>

definition PopulateFileDropdown :: "world \<Rightarrow> wstring \<Rightarrow> wstring list \<Rightarrow> bool" where
  "PopulateFileDropdown w folder items \<longleftrightarrow> rank (scan w folder) items"

text \<open>
  A sort key for the comparison, used to show that \<open>NaturalLess\<close> is a strict weak
  ordering: the name is read as \<open>NaturalLess\<close> reads it, a digit run becoming
  \<open>(49, value, length)\<close>, any other character \<open>(code of its lower case + 1, 0, 0)\<close>, and
  trailing separators \<open>(0, 0, 0)\<close>. Keys are compared lexicographically.
\<close>

function natkey :: "wstring \<Rightarrow> (nat \<times> nat \<times> nat) list" where
  "natkey s =
     (if s = [] then []
      else if skip_seps s = [] then [(0, 0, 0)]
      else if iswdigit (hd (skip_seps s))
        then (49, unat (fst (digit_run 0 (skip_seps s))),
              length (skip_seps s) - length (snd (digit_run 0 (skip_seps s))))
             # natkey (snd (digit_run 0 (skip_seps s)))
      else (Suc (unat (towlower (hd (skip_seps s)))), 0, 0) # natkey (tl (skip_seps s)))"
  by pat_completeness auto
termination
proof (relation "measure length")
  show "wf (measure length)" by simp
next
  fix s :: wstring
  assume "skip_seps s \<noteq> []" "iswdigit (hd (skip_seps s))"
  then have "length (snd (digit_run 0 (skip_seps s))) < length (skip_seps s)"
    by (simp add: length_digit_run_less)
  also have "\<dots> \<le> length s" by (rule length_skip_seps)
  finally show "(snd (digit_run 0 (skip_seps s)), s) \<in> measure length" by simp
next
  fix s :: wstring
  assume "skip_seps s \<noteq> []"
  then have "length (tl (skip_seps s)) < length (skip_seps s)" by simp
  also have "\<dots> \<le> length s" by (rule length_skip_seps)
  finally show "(tl (skip_seps s), s) \<in> measure length" by simp
qed

declare natkey.simps [simp del]

section \<open>Text conversion (main.cpp, lines 16-29)\<close>

text \<open>
  \<open>ToUtf8\<close> and \<open>FromUtf8\<close> wrap the platform's \<open>WideCharToMultiByte\<close> and
  \<open>MultiByteToWideChar\<close> with \<open>CP_UTF8\<close> and no flags. The two platform functions are
  modelled on their documented behaviour: UTF-16 is read as code points, a surrogate that
  is not part of a pair becoming U+FFFD, and code points are written as UTF-8; in the other
  direction well-formed UTF-8 is read as code points and written as UTF-16. For bytes that
  are not well-formed UTF-8 the model puts one U+FFFD per offending byte; no theorem below
  depends on that choice. Byte values are kept as natural numbers between the two steps.
\<close>

definition is_high_surrogate :: "wchar \<Rightarrow> bool" where
  "is_high_surrogate c \<longleftrightarrow> 0xD800 \<le> c \<and> c \<le> 0xDBFF"

definition is_low_surrogate :: "wchar \<Rightarrow> bool" where
  "is_low_surrogate c \<longleftrightarrow> 0xDC00 \<le> c \<and> c \<le> 0xDFFF"

definition unit_cp :: "wchar \<Rightarrow> nat" where
  "unit_cp c = (if is_high_surrogate c \<or> is_low_surrogate c then 0xFFFD else unat c)"

fun utf16_decode :: "wstring \<Rightarrow> nat list" where
  "utf16_decode [] = []"
| "utf16_decode [c] = [unit_cp c]"
| "utf16_decode (c # d # cs) =
     (if is_high_surrogate c \<and> is_low_surrogate d
      then (0x10000 + (unat c - 0xD800) * 0x400 + (unat d - 0xDC00)) # utf16_decode cs
      else unit_cp c # utf16_decode (d # cs))"

definition utf16_encode_cp :: "nat \<Rightarrow> wstring" where
  "utf16_encode_cp cp =
     (if cp < 0x10000 then [of_nat cp]
      else [of_nat (0xD800 + (cp - 0x10000) div 0x400), of_nat (0xDC00 + (cp - 0x10000) mod 0x400)])"

definition utf8_encode_cp :: "nat \<Rightarrow> nat list" where
  "utf8_encode_cp cp =
     (if cp < 0x80 then [cp]
      else if cp < 0x800 then [0xC0 + cp div 0x40, 0x80 + cp mod 0x40]
      else if cp < 0x10000
        then [0xE0 + cp div 0x1000, 0x80 + cp div 0x40 mod 0x40, 0x80 + cp mod 0x40]
      else [0xF0 + cp div 0x40000, 0x80 + cp div 0x1000 mod 0x40,
            0x80 + cp div 0x40 mod 0x40, 0x80 + cp mod 0x40])"

definition is_cont :: "nat \<Rightarrow> bool" where
  "is_cont b \<longleftrightarrow> 0x80 \<le> b \<and> b \<le> 0xBF"

definition cp2 :: "nat \<Rightarrow> nat \<Rightarrow> nat" where
  "cp2 b0 b1 = (b0 - 0xC0) * 0x40 + (b1 - 0x80)"

definition cp3 :: "nat \<Rightarrow> nat \<Rightarrow> nat \<Rightarrow> nat" where
  "cp3 b0 b1 b2 = (b0 - 0xE0) * 0x1000 + (b1 - 0x80) * 0x40 + (b2 - 0x80)"

definition cp4 :: "nat \<Rightarrow> nat \<Rightarrow> nat \<Rightarrow> nat \<Rightarrow> nat" where
  "cp4 b0 b1 b2 b3 = (b0 - 0xF0) * 0x40000 + (b1 - 0x80) * 0x1000 + (b2 - 0x80) * 0x40 + (b3 - 0x80)"

function utf8_decode :: "nat list \<Rightarrow> nat list" where
  "utf8_decode [] = []"
| "utf8_decode (b # bs) =
     (if b < 0x80 then b # utf8_decode bs
      else if 0xC2 \<le> b \<and> b \<le> 0xDF \<and> 1 \<le> length bs \<and> is_cont (bs ! 0)
        then cp2 b (bs ! 0) # utf8_decode (drop 1 bs)
      else if 0xE0 \<le> b \<and> b \<le> 0xEF \<and> 2 \<le> length bs \<and> is_cont (bs ! 0) \<and> is_cont (bs ! 1)
            \<and> 0x800 \<le> cp3 b (bs ! 0) (bs ! 1)
            \<and> \<not> (0xD800 \<le> cp3 b (bs ! 0) (bs ! 1) \<and> cp3 b (bs ! 0) (bs ! 1) \<le> 0xDFFF)
        then cp3 b (bs ! 0) (bs ! 1) # utf8_decode (drop 2 bs)
      else if 0xF0 \<le> b \<and> b \<le> 0xF4 \<and> 3 \<le> length bs
            \<and> is_cont (bs ! 0) \<and> is_cont (bs ! 1) \<and> is_cont (bs ! 2)
            \<and> 0x10000 \<le> cp4 b (bs ! 0) (bs ! 1) (bs ! 2)
            \<and> cp4 b (bs ! 0) (bs ! 1) (bs ! 2) \<le> 0x10FFFF
        then cp4 b (bs ! 0) (bs ! 1) (bs ! 2) # utf8_decode (drop 3 bs)
      else 0xFFFD # utf8_decode bs)"
  by pat_completeness auto
termination
  by (relation "measure length") auto

declare utf8_decode.simps(2) [simp del]

definition WideCharToMultiByte_utf8 :: "wstring \<Rightarrow> bytes" where
  "WideCharToMultiByte_utf8 s = map of_nat (concat (map utf8_encode_cp (utf16_decode s)))"

definition MultiByteToWideChar_utf8 :: "bytes \<Rightarrow> wstring" where
  "MultiByteToWideChar_utf8 bs = concat (map utf16_encode_cp (utf8_decode (map unat bs)))"

text \<open>
  Both wrappers pass \<open>s.c_str()\<close> with length \<open>-1\<close>: the platform reads up to the first
  NUL. The size bookkeeping of the wrappers (\<open>len - 1\<close> bytes, filled when \<open>len > 1\<close>)
  leaves exactly the converted text without its terminator.
\<close>

definition ToUtf8 :: "wstring \<Rightarrow> bytes" where
  "ToUtf8 s = (if s = [] then [] else WideCharToMultiByte_utf8 (takeWhile (\<lambda>c. c \<noteq> 0) s))"

definition FromUtf8 :: "bytes \<Rightarrow> wstring" where
  "FromUtf8 s = (if s = [] then [] else MultiByteToWideChar_utf8 (takeWhile (\<lambda>c. c \<noteq> 0) s))"

text \<open>
  The strings the round trip of the configuration is about: text, that is well-formed
  UTF-16 (every surrogate is part of a pair), without NUL, which ends a C string, and
  without line feed, which no path or file name contains. A code point is a scalar value
  when it is in range and not a surrogate.
\<close>

definition scalar :: "nat \<Rightarrow> bool" where
  "scalar cp \<longleftrightarrow> cp < 0x110000 \<and> \<not> (0xD800 \<le> cp \<and> cp \<le> 0xDFFF)"

fun well_formed :: "wstring \<Rightarrow> bool" where
  "well_formed [] = True"
| "well_formed [c] = (\<not> is_high_surrogate c \<and> \<not> is_low_surrogate c)"
| "well_formed (c # d # cs) =
     (if is_high_surrogate c \<and> is_low_surrogate d then well_formed cs
      else \<not> is_high_surrogate c \<and> \<not> is_low_surrogate c \<and> well_formed (d # cs))"

definition path_text :: "wstring \<Rightarrow> bool" where
  "path_text s \<longleftrightarrow> well_formed s \<and> 0 \<notin> set s \<and> 0x0A \<notin> set s"

section \<open>The configuration file (main.cpp, lines 136-165)\<close>

definition config_name :: wstring where
  "config_name = wstr ''config.txt''"

text \<open>The three lines that \<open>SaveConfig\<close> puts on the stream.\<close>

definition config_text :: "wstring \<Rightarrow> wstring \<Rightarrow> bool \<Rightarrow> bytes" where
  "config_text folder file pinOnTop =
     bstr ''directory='' @ ToUtf8 folder @ [0x0A]
     @ bstr ''file='' @ ToUtf8 file @ [0x0A]
     @ bstr ''pin='' @ (if pinOnTop then bstr ''1'' else bstr ''0'') @ [0x0A]"

text \<open>
  \<open>SaveConfig\<close> returns \<open>void\<close>: its only result is the file system. It never tests the
  stream; when the file cannot be opened the three insertions do nothing.
\<close>

definition SaveConfig :: "world \<Rightarrow> wstring \<Rightarrow> wstring \<Rightarrow> bool \<Rightarrow> world" where
  "SaveConfig w folder file pinOnTop =
     (if open_for_write w (exe_dir w) config_name
      then write_file w (exe_dir w) config_name (config_text folder file pinOnTop)
      else w)"

text \<open>
  \<open>getlines cur s\<close> is the sequence of lines that repeated \<open>std::getline\<close> delivers from
  the remaining input \<open>s\<close>, \<open>cur\<close> being the part of the current line already read. A last
  line without a line feed is delivered if it is not empty.
\<close>

fun getlines :: "bytes \<Rightarrow> bytes \<Rightarrow> bytes list" where
  "getlines cur [] = (if cur = [] then [] else [cur])"
| "getlines cur (c # cs) = (if c = 0x0A then cur # getlines [] cs else getlines (cur @ [c]) cs)"

record config_vars =
  cfg_folder :: wstring
  cfg_file :: wstring
  cfg_pin :: bool

text \<open>The body of the \<open>while (std::getline(in, line))\<close> loop of \<open>LoadConfig\<close>.\<close>

definition config_line :: "config_vars \<Rightarrow> bytes \<Rightarrow> config_vars" where
  "config_line v line =
     (if rfind line (bstr ''directory='') 0 = Some 0 then v\<lparr>cfg_folder := FromUtf8 (drop 10 line)\<rparr>
      else if rfind line (bstr ''file='') 0 = Some 0 then v\<lparr>cfg_file := FromUtf8 (drop 5 line)\<rparr>
      else if rfind line (bstr ''pin='') 0 = Some 0
        then v\<lparr>cfg_pin := (4 < length line \<and> line ! 4 = 0x31)\<rparr>
      else v)"

definition parse_config :: "bytes \<Rightarrow> config_vars" where
  "parse_config content =
     foldl config_line \<lparr>cfg_folder = [], cfg_file = [], cfg_pin = False\<rparr> (getlines [] content)"

text \<open>
  \<open>LoadConfig\<close> up to the point where the values are handed to the dialog: \<open>None\<close> is
  \<open>if (!in) return false;\<close>, otherwise the values of \<open>folder\<close>, \<open>file\<close> and \<open>pin\<close> after
  the loop.
\<close>

definition LoadConfig :: "world \<Rightarrow> config_vars option" where
  "LoadConfig w =
     (case entry w (exe_dir w) config_name of
        Some (RegularFile content) \<Rightarrow> Some (parse_config content)
      | _ \<Rightarrow> None)"

section \<open>The Overwrite button (main.cpp, lines 242-270)\<close>

datatype error_code =
  ec_success | ec_no_such_file_or_directory | ec_file_exists | ec_not_regular | ec_io_error

definition active_name :: wstring where
  "active_name = wstr ''bf2savefile.sav''"

text \<open>
  \<open>fs::copy_file(from, to, fs::copy_options::overwrite_existing, ec)\<close> for two names of
  one folder, after the C++ standard: it is an error if \<open>from\<close> is not a regular file, if
  \<open>to\<close> exists and is not a regular file, or if \<open>to\<close> exists and is the same file as
  \<open>from\<close>; otherwise the content of \<open>from\<close> replaces the content of \<open>to\<close>, unless the
  platform refuses the write. A destination whose status cannot be determined (a link
  whose target is missing) does not exist for \<open>exists(to)\<close>: the copy goes through the
  link and creates the file, after which the name resolves to a regular file. A source
  whose status cannot be determined is not a regular file. A failed copy leaves the
  model's file system as it was.
\<close>

definition copy_file :: "world \<Rightarrow> wstring \<Rightarrow> wstring \<Rightarrow> wstring \<Rightarrow> error_code \<times> world" where
  "copy_file w folder from to =
     (case entry w folder from of
        Some (RegularFile x) \<Rightarrow>
          (case entry w folder to of
             None \<Rightarrow>
               if write_denied w folder to then (ec_io_error, w)
               else (ec_success, write_file w folder to x)
           | Some Unresolved \<Rightarrow>
               if write_denied w folder to then (ec_io_error, w)
               else (ec_success, write_file w folder to x)
           | Some (RegularFile y) \<Rightarrow>
               if from = to then (ec_file_exists, w)
               else if write_denied w folder to then (ec_io_error, w)
               else (ec_success, write_file w folder to x)
           | Some SubDirectory \<Rightarrow> (ec_file_exists, w)
           | Some OtherNode \<Rightarrow> (ec_file_exists, w))
      | Some _ \<Rightarrow> (ec_not_regular, w)
      | None \<Rightarrow> (ec_no_such_file_or_directory, w))"

text \<open>Lines 254-262: the copy guarded by the test of the source.\<close>

definition promote :: "world \<Rightarrow> wstring \<Rightarrow> wstring \<Rightarrow> error_code \<times> world" where
  "promote w folder selectedFile =
     (if selectedFile \<noteq> [] \<and> fs_exists w folder selectedFile
      then copy_file w folder selectedFile active_name
      else (ec_no_such_file_or_directory, w))"

text \<open>
  What the handler reads from the dialog: the text of the folder field, the items and the
  current selection of the combo box (\<open>-1\<close> when nothing is selected), and the pin box.
\<close>

record dialog =
  edit_dir :: wstring
  combo_items :: "wstring list"
  cur_sel :: int
  pin_checked :: bool

definition selected_file :: "dialog \<Rightarrow> wstring" where
  "selected_file d =
     (if 0 \<le> cur_sel d \<and> nat (cur_sel d) < length (combo_items d)
      then combo_items d ! nat (cur_sel d) else [])"

definition status_text :: "error_code \<Rightarrow> wstring" where
  "status_text ec = (if ec \<noteq> ec_success then wstr ''Failed'' else wstr ''Success!'')"

text \<open>
  The handler of \<open>IDOK\<close>: the copy, then \<open>SaveConfig\<close>, then the status text. It returns
  the status text and the file system.
\<close>

definition on_ok :: "dialog \<Rightarrow> world \<Rightarrow> wstring \<times> world" where
  "on_ok d w =
     (let folder = edit_dir d;
          selectedFile = selected_file d;
          r = promote w folder selectedFile;
          w' = SaveConfig (snd r) folder selectedFile (pin_checked d)
      in (status_text (fst r), w'))"

section \<open>A small file system for the examples\<close>

definition example_world :: world where
  "example_world =
     \<lparr>lookup_dir = (\<lambda>_. NoSuchPath)
        (wstr ''C:/saves'' := Dir True
           [(wstr ''bf2savefile3.sav'', RegularFile [0x58]),
            (wstr ''notes.txt'', RegularFile [0x6E]),
            (wstr ''bf2savefile_old'', SubDirectory),
            (wstr ''BF2savefile9.sav'', RegularFile [0x39]),
            (wstr ''bf2savefile.sav'', RegularFile [0x59])],
         wstr ''C:/app'' := Dir True [],
         wstr ''C:/locked'' := Dir False [(wstr ''bf2savefile1.sav'', RegularFile [])],
         wstr ''C:/file'' := NotADirectory,
         wstr ''C:/links'' := Dir True
           [(wstr ''aaa'', Unresolved),
            (wstr ''bf2savefile.sav'', RegularFile [0x59]),
            (wstr ''bf2savefile1.sav'', RegularFile [0x58])],
         wstr ''C:/dangling'' := Dir True
           [(wstr ''bf2savefile.sav'', Unresolved),
            (wstr ''bf2savefile2.sav'', RegularFile [0x58])]),
      exe_dir = wstr ''C:/app'',
      write_denied = (\<lambda>_ _. False)\<rparr>"

definition readonly_world :: world where
  "readonly_world = example_world\<lparr>write_denied := (\<lambda>folder name. folder = wstr ''C:/app'')\<rparr>"

text \<open>
  A world in which the program's folder holds an older configuration file and refuses
  writes.
\<close>

definition stale_world :: world where
  "stale_world =
     example_world
       \<lparr>lookup_dir := (lookup_dir example_world)
          (wstr ''C:/app'' := Dir True
             [(wstr ''config.txt'',
               RegularFile (config_text (wstr ''C:/old'') (wstr ''bf2savefile1.sav'') False))]),
        write_denied := (\<lambda>folder name. folder = wstr ''C:/app'')\<rparr>"

definition example_dialog :: dialog where
  "example_dialog =
     \<lparr>edit_dir = wstr ''C:/saves'',
      combo_items = [wstr ''bf2savefile3.sav'', wstr ''bf2savefile.sav''],
      cur_sel = 0, pin_checked = True\<rparr>"

text \<open>The same dialog with nothing selected in the combo box.\<close>

definition no_selection_dialog :: dialog where
  "no_selection_dialog = example_dialog\<lparr>cur_sel := -1\<rparr>"

section \<open>Digit runs\<close>

lemma digit_value:
  assumes "iswdigit c"
  shows "unat (ucast ((ucast c :: 32 word) - 0x30) :: u64) = unat c - 48"
proof -
  have c: "48 \<le> unat c" "unat c \<le> 57"
    using assms by (simp_all add: iswdigit_def word_le_nat_alt)
  have u: "unat (ucast c :: 32 word) = unat c"
    using c by (simp add: unsigned_ucast_eq take_bit_nat_eq_self)
  have "(0x30 :: 32 word) \<le> ucast c"
    using c u by (simp add: word_le_nat_alt)
  then have d: "unat ((ucast c :: 32 word) - 0x30) = unat c - 48"
    using u by (simp add: unat_sub)
  show ?thesis
    using c d by (simp add: unsigned_ucast_eq take_bit_nat_eq_self)
qed

text \<open>The accumulator of the program is the magnitude modulo \<open>2^64\<close>.\<close>

lemma digit_run_magnitude_from:
  "unat v = n mod 2 ^ 64 \<Longrightarrow> unat (fst (digit_run v s)) = magnitude_from n s mod 2 ^ 64"
proof (induction s arbitrary: v n)
  case Nil
  then show ?case by simp
next
  case (Cons c cs)
  show ?case
  proof (cases "iswdigit c")
    case True
    have "unat (v * 10 + ucast ((ucast c :: 32 word) - 0x30) :: u64)
        = (n * 10 + (unat c - 48)) mod 2 ^ 64"
      using Cons.prems digit_value [OF True]
      by (simp add: unat_word_ariths mod_simps)
    then show ?thesis using True Cons.IH by simp
  next
    case False
    then show ?thesis using Cons.prems by simp
  qed
qed

lemma digit_run_magnitude: "unat (fst (digit_run 0 s)) = magnitude s mod 2 ^ 64"
  using digit_run_magnitude_from [of 0 0 s] by (simp add: magnitude_def)

lemma digit_run_rest: "snd (digit_run v s) = dropWhile iswdigit s"
  by (induction s arbitrary: v) auto

lemma digit_run_length: "length s - length (snd (digit_run v s)) = run_length s"
proof -
  have "length s = length (takeWhile iswdigit s) + length (dropWhile iswdigit s)"
    by (metis length_append takeWhile_dropWhile_id)
  then show ?thesis by (simp add: digit_run_rest run_length_def)
qed

text \<open>
  One step of the comparison at which both cursors are at a digit, with the digit runs
  read as the specification reads them. As long as both magnitudes fit into 64 bits the
  program orders the runs by magnitude and then by length.
\<close>

lemma NaturalLess_digit_step:
  assumes "a \<noteq> []" "b \<noteq> []" "\<not> IsSep (hd a)" "\<not> IsSep (hd b)"
    and "iswdigit (hd a)" "iswdigit (hd b)"
  shows "NaturalLess a b =
     (if magnitude a mod 2 ^ 64 \<noteq> magnitude b mod 2 ^ 64
        then magnitude a mod 2 ^ 64 < magnitude b mod 2 ^ 64
      else if run_length a \<noteq> run_length b then run_length a < run_length b
      else NaturalLess (dropWhile iswdigit a) (dropWhile iswdigit b))"
proof -
  have sa: "skip_seps a = a" using assms(1,3) by (cases a) auto
  have sb: "skip_seps b = b" using assms(2,4) by (cases b) auto
  have eq: "fst (digit_run 0 a) = fst (digit_run 0 b)
      \<longleftrightarrow> magnitude a mod 2 ^ 64 = magnitude b mod 2 ^ 64"
    by (metis digit_run_magnitude word_unat_eq_iff)
  have less: "fst (digit_run 0 a) < fst (digit_run 0 b)
      \<longleftrightarrow> magnitude a mod 2 ^ 64 < magnitude b mod 2 ^ 64"
    by (simp add: word_less_nat_alt digit_run_magnitude)
  show ?thesis
    apply (subst NaturalLess.simps)
    using assms(1,2,5,6)
    apply (simp only: sa sb Let_def digit_run_length eq less)
    apply (simp add: digit_run_rest)
    done
qed

lemma NaturalLess_digit_runs_bounded:
  assumes "a \<noteq> []" "b \<noteq> []" "\<not> IsSep (hd a)" "\<not> IsSep (hd b)"
    and "iswdigit (hd a)" "iswdigit (hd b)"
    and "magnitude a < 2 ^ 64" "magnitude b < 2 ^ 64"
  shows "magnitude a < magnitude b \<Longrightarrow> NaturalLess a b"
    and "magnitude b < magnitude a \<Longrightarrow> \<not> NaturalLess a b"
    and "magnitude a = magnitude b \<Longrightarrow> run_length a < run_length b \<Longrightarrow> NaturalLess a b"
    and "magnitude a = magnitude b \<Longrightarrow> run_length b < run_length a \<Longrightarrow> \<not> NaturalLess a b"
  using assms(7,8) by (simp_all add: NaturalLess_digit_step [OF assms(1-6)])

section \<open>Claims about the comparator\<close>

text \<open>
  C1. At a step where both names present a digit the comparator is to order the two
  maximal digit runs by numeric magnitude, for digit runs of any length. The program
  accumulates the magnitude in an \<open>unsigned long long\<close>, which wraps: the run
  \<open>18446744073709551616\<close> (\<open>2^64\<close>) is read as 0, so a name carrying it compares Less
  than the same name carrying \<open>1\<close>, although its magnitude is the larger one.
\<close>

theorem NaturalLess_digit_run_wraps:
  "NaturalLess (wstr ''bf2savefile18446744073709551616.sav'') (wstr ''bf2savefile1.sav'')
   \<and> \<not> NaturalLess (wstr ''bf2savefile1.sav'') (wstr ''bf2savefile18446744073709551616.sav'')
   \<and> magnitude (drop 11 (wstr ''bf2savefile1.sav''))
       < magnitude (drop 11 (wstr ''bf2savefile18446744073709551616.sav''))"
proof -
  have code: "NaturalLess (wstr ''bf2savefile18446744073709551616.sav'') (wstr ''bf2savefile1.sav'')
      \<and> \<not> NaturalLess (wstr ''bf2savefile1.sav'') (wstr ''bf2savefile18446744073709551616.sav'')"
    by code_simp
  have small: "magnitude (drop 11 (wstr ''bf2savefile1.sav'')) = 1"
    by (simp add: magnitude_def wstr_def iswdigit_def)
  have large: "magnitude (drop 11 (wstr ''bf2savefile18446744073709551616.sav''))
      = 18446744073709551616"
    by (simp add: magnitude_def wstr_def iswdigit_def)
  show ?thesis
    using code by (simp only: small large) simp
qed

text \<open>
  C9 as stated fails: when a cursor is at the end of its string at the loop condition,
  the remaining characters of the other string are counted without skipping separators.
  After the common part \<open>save\<close> both names have no character left once separators are
  skipped, yet \<open>save\<close> compares Less than \<open>save_\<close>.
\<close>

theorem NaturalLess_trailing_separator:
  "compare (wstr ''save'') (wstr ''save_'') = Less
   \<and> length (skip_seps (drop 4 (wstr ''save''))) = length (skip_seps (drop 4 (wstr ''save_'')))"
  by code_simp

text \<open>
  C9, amended. With the cursors at the suffixes \<open>a\<close> and \<open>b\<close>: if one of them is already at
  the end when the loop condition is tested, the raw remaining lengths decide (separators
  included), so the exhausted name compares Less than a name with anything left. If both
  pass the loop condition and an end is reached after the separators are skipped, the
  remaining lengths after skipping decide: fewer remaining characters compare Less, and
  equally many (both at the end) compare Equal.
\<close>

theorem NaturalLess_at_end:
  assumes "a = [] \<or> b = [] \<or> skip_seps a = [] \<or> skip_seps b = []"
  shows "compare a b =
     (if a = [] \<or> b = []
      then (if length a < length b then Less
            else if length b < length a then Greater else Equal)
      else (if length (skip_seps a) < length (skip_seps b) then Less
            else if length (skip_seps b) < length (skip_seps a) then Greater else Equal))"
proof -
  have ab: "NaturalLess a b =
      (if a = [] \<or> b = [] then length a < length b
       else length (skip_seps a) < length (skip_seps b))"
    using assms by (subst NaturalLess.simps) auto
  have ba: "NaturalLess b a =
      (if a = [] \<or> b = [] then length b < length a
       else length (skip_seps b) < length (skip_seps a))"
    using assms by (subst NaturalLess.simps) auto
  show ?thesis
    unfolding compare_def ab ba by auto
qed

theorem NaturalLess_at_end_witness:
  "compare (wstr ''_'') (wstr ''-.'') = Equal \<and> compare [] (wstr ''_'') = Less
   \<and> compare (wstr ''_'') (wstr ''_x'') = Less"
proof -
  have sk: "skip_seps (wstr ''_'') = []" "skip_seps (wstr ''-.'') = []"
    "skip_seps (wstr ''_x'') = wstr ''x''"
    by (simp_all add: wstr_def IsSep_def)
  have ne: "wstr ''_'' \<noteq> []" "wstr ''-.'' \<noteq> []" "wstr ''_x'' \<noteq> []"
    by (simp_all add: wstr_def)
  have "compare (wstr ''_'') (wstr ''-.'') = Equal"
    using NaturalLess_at_end [of "wstr ''_''" "wstr ''-.''"] by (simp add: sk ne)
  moreover have "compare [] (wstr ''_'') = Less"
    using NaturalLess_at_end [of "[]" "wstr ''_''"] by (simp add: wstr_def)
  moreover have "compare (wstr ''_'') (wstr ''_x'') = Less"
    using NaturalLess_at_end [of "wstr ''_''" "wstr ''_x''"] by (simp add: sk ne) (simp add: wstr_def)
  ultimately show ?thesis by simp
qed

section \<open>The comparison is a strict weak ordering\<close>

lemma skip_seps_nonempty: "skip_seps s \<noteq> [] \<Longrightarrow> s \<noteq> []"
  by auto

lemma natkey_Nil: "natkey [] = []"
  by (simp add: natkey.simps)

lemma natkey_seps: "s \<noteq> [] \<Longrightarrow> skip_seps s = [] \<Longrightarrow> natkey s = [(0, 0, 0)]"
  by (simp add: natkey.simps)

lemma natkey_digit:
  "skip_seps s \<noteq> [] \<Longrightarrow> iswdigit (hd (skip_seps s)) \<Longrightarrow>
   natkey s = (49, unat (fst (digit_run 0 (skip_seps s))),
               length (skip_seps s) - length (snd (digit_run 0 (skip_seps s))))
              # natkey (snd (digit_run 0 (skip_seps s)))"
  by (subst natkey.simps) auto

lemma natkey_char:
  "skip_seps s \<noteq> [] \<Longrightarrow> \<not> iswdigit (hd (skip_seps s)) \<Longrightarrow>
   natkey s = (Suc (unat (towlower (hd (skip_seps s)))), 0, 0) # natkey (tl (skip_seps s))"
  by (subst natkey.simps) auto

lemma towlower_digit: "iswdigit c \<Longrightarrow> towlower c = c"
  by (auto simp: iswdigit_def towlower_def word_le_nat_alt)

lemma towlower_not_digit: "\<not> iswdigit c \<Longrightarrow> \<not> iswdigit (towlower c)"
  unfolding iswdigit_def towlower_def
  by (auto simp: word_le_nat_alt unat_word_ariths)

lemma digit_range: "iswdigit c \<longleftrightarrow> 48 \<le> unat c \<and> unat c \<le> 57"
  by (simp add: iswdigit_def word_le_nat_alt)

lemma NaturalLess_natkey: "NaturalLess a b \<longleftrightarrow> natkey a < natkey b"
proof (induction a b rule: NaturalLess.induct)
  case (1 a b)
  let ?sa = "skip_seps a" and ?sb = "skip_seps b"
  consider (ends) "a = [] \<or> b = []"
    | (seps) "a \<noteq> []" "b \<noteq> []" "?sa = [] \<or> ?sb = []"
    | (digits) "?sa \<noteq> []" "?sb \<noteq> []" "iswdigit (hd ?sa)" "iswdigit (hd ?sb)"
    | (mixed) "?sa \<noteq> []" "?sb \<noteq> []" "iswdigit (hd ?sa) \<noteq> iswdigit (hd ?sb)"
    | (chars) "?sa \<noteq> []" "?sb \<noteq> []" "\<not> iswdigit (hd ?sa)" "\<not> iswdigit (hd ?sb)"
    by (cases "a = []"; cases "b = []"; cases "?sa = []"; cases "?sb = []") auto
  then show ?case
  proof cases
    case ends
    have "[] < natkey x" if "x \<noteq> []" for x
    proof -
      have "natkey x \<noteq> []"
        using that by (subst natkey.simps) auto
      then show ?thesis by (cases "natkey x") simp_all
    qed
    then show ?thesis
      using ends by (subst NaturalLess.simps) (auto simp: natkey_Nil)
  next
    case seps
    have tok: "\<exists>t r. natkey x = t # r \<and> (0, 0, 0) < t" if "skip_seps x \<noteq> []" for x
      using that by (cases "iswdigit (hd (skip_seps x))") (auto simp: natkey_digit natkey_char)
    have nl: "NaturalLess a b \<longleftrightarrow> ?sa = [] \<and> ?sb \<noteq> []"
      using seps by (subst NaturalLess.simps) auto
    show ?thesis
    proof (cases "?sa = []")
      case True
      then show ?thesis
        using seps tok [of b] nl by (cases "?sb = []") (auto simp: natkey_seps)
    next
      case False
      then have "?sb = []" using seps by simp
      then show ?thesis
        using False seps tok [of a] nl by (auto simp: natkey_seps)
    qed
  next
    case digits
    have ne: "a \<noteq> []" "b \<noteq> []" using digits by auto
    note ih = "1.IH"(1) [OF _ _ _ refl refl refl refl refl refl]
    show ?thesis
      apply (subst NaturalLess.simps)
      using digits ne ih
      apply (simp add: natkey_digit Let_def word_less_nat_alt word_unat_eq_iff)
      apply auto
      done
  next
    case mixed
    have ne: "a \<noteq> []" "b \<noteq> []" using mixed by auto
    show ?thesis
    proof (cases "iswdigit (hd ?sa)")
      case True
      then have nb: "\<not> iswdigit (hd ?sb)" using mixed by simp
      have "\<not> iswdigit (towlower (hd ?sb))" using nb by (rule towlower_not_digit)
      then show ?thesis
        apply (subst NaturalLess.simps)
        using mixed ne True nb
        apply (simp add: natkey_digit natkey_char Let_def towlower_digit word_less_nat_alt word_unat_eq_iff)
        apply (auto simp: digit_range)
        done
    next
      case False
      then have db: "iswdigit (hd ?sb)" using mixed by simp
      have "\<not> iswdigit (towlower (hd ?sa))" using False by (rule towlower_not_digit)
      then show ?thesis
        apply (subst NaturalLess.simps)
        using mixed ne False db
        apply (simp add: natkey_digit natkey_char Let_def towlower_digit word_less_nat_alt word_unat_eq_iff)
        apply (auto simp: digit_range)
        done
    qed
  next
    case chars
    have ne: "a \<noteq> []" "b \<noteq> []" using chars by auto
    note ih = "1.IH"(2) [OF _ _ _ refl refl]
    show ?thesis
      apply (subst NaturalLess.simps)
      using chars ne ih
      apply (simp add: natkey_char Let_def word_less_nat_alt word_unat_eq_iff)
      done
  qed
qed

lemma not_NaturalLess_natkey: "\<not> NaturalLess y x \<longleftrightarrow> natkey x \<le> natkey y"
  by (simp add: NaturalLess_natkey not_less)

lemma compare_Equal_natkey: "compare x y = Equal \<longleftrightarrow> natkey x = natkey y"
  by (auto simp: compare_def NaturalLess_natkey)

lemma compare_not_Greater: "compare x y \<noteq> Greater \<longleftrightarrow> \<not> NaturalLess y x"
  by (auto simp: compare_def NaturalLess_natkey)

lemma NaturalLess_strict_weak_order: "strict_weak_order NaturalLess"
  unfolding strict_weak_order_def NaturalLess_natkey by auto

lemma rank_sort_key: "rank names (sort_key natkey names)"
proof -
  have "sorted (map natkey (sort_key natkey names))" by (rule sorted_sort_key)
  then have "sorted_wrt (\<lambda>x y. \<not> NaturalLess y x) (sort_key natkey names)"
    by (simp add: sorted_map not_NaturalLess_natkey)
  then show ?thesis by (simp add: rank_def std_sort_post_def)
qed

lemma stable_sort_key: "stable_wrt names (sort_key natkey names)"
  unfolding stable_wrt_def compare_Equal_natkey
  by (simp add: list_all_iff sort_key_stable)

lemma ex_tie: "compare (wstr ''bf2savefile_10.sav'') (wstr ''bf2savefile-10.sav'') = Equal"
  by code_simp

section \<open>Claims about ranking\<close>

text \<open>
  C2 as stated fails: the program ranks with \<open>std::sort\<close>, which does not promise to
  keep the order of names that compare Equal. The two names below compare Equal, and the
  output that lists them in the opposite order is a result \<open>std::sort\<close> may leave.
\<close>

theorem rank_not_stable:
  "rank [wstr ''bf2savefile_10.sav'', wstr ''bf2savefile-10.sav'']
        [wstr ''bf2savefile-10.sav'', wstr ''bf2savefile_10.sav'']
   \<and> compare (wstr ''bf2savefile_10.sav'') (wstr ''bf2savefile-10.sav'') = Equal
   \<and> \<not> stable_wrt [wstr ''bf2savefile_10.sav'', wstr ''bf2savefile-10.sav'']
        [wstr ''bf2savefile-10.sav'', wstr ''bf2savefile_10.sav'']"
proof -
  have n: "\<not> NaturalLess (wstr ''bf2savefile_10.sav'') (wstr ''bf2savefile-10.sav'')"
    "\<not> NaturalLess (wstr ''bf2savefile-10.sav'') (wstr ''bf2savefile_10.sav'')"
    "\<not> NaturalLess (wstr ''bf2savefile-10.sav'') (wstr ''bf2savefile-10.sav'')"
    "\<not> NaturalLess (wstr ''bf2savefile_10.sav'') (wstr ''bf2savefile_10.sav'')"
    by code_simp+
  have d: "wstr ''bf2savefile_10.sav'' \<noteq> wstr ''bf2savefile-10.sav''"
    by (simp add: wstr_def)
  have r: "rank [wstr ''bf2savefile_10.sav'', wstr ''bf2savefile-10.sav'']
        [wstr ''bf2savefile-10.sav'', wstr ''bf2savefile_10.sav'']"
    using n by (simp add: rank_def std_sort_post_def)
  have s: "\<not> stable_wrt [wstr ''bf2savefile_10.sav'', wstr ''bf2savefile-10.sav'']
        [wstr ''bf2savefile-10.sav'', wstr ''bf2savefile_10.sav'']"
    using n d by (simp add: stable_wrt_def compare_def)
  show ?thesis using r s n by (simp add: compare_def)
qed

text \<open>
  C2, amended. \<open>NaturalLess\<close> is a strict weak ordering, so \<open>std::sort\<close> is used within
  its contract: for every input there is a result, every result is a permutation of the
  input in which no name compares Greater than a name after it, and the empty input has
  only the empty result. The stable order is one of the admissible results; the relative
  order of names that compare Equal is otherwise left open.
\<close>

theorem rank_sorted_permutation:
  "strict_weak_order NaturalLess
   \<and> (\<exists>out. rank names out \<and> stable_wrt names out)
   \<and> (\<forall>out. rank names out \<longrightarrow>
         mset out = mset names \<and> sorted_wrt (\<lambda>x y. compare x y \<noteq> Greater) out)
   \<and> (\<forall>out. rank [] out \<longleftrightarrow> out = [])"
proof -
  have 1: "\<exists>out. rank names out \<and> stable_wrt names out"
    using rank_sort_key stable_sort_key by blast
  have 2: "\<forall>out. rank names out \<longrightarrow>
         mset out = mset names \<and> sorted_wrt (\<lambda>x y. compare x y \<noteq> Greater) out"
    by (simp add: rank_def std_sort_post_def compare_not_Greater)
  have 3: "\<forall>out. rank [] out \<longleftrightarrow> out = []"
    by (auto simp: rank_def std_sort_post_def)
  show ?thesis using NaturalLess_strict_weak_order 1 2 3 by blast
qed

theorem rank_sorted_permutation_witness:
  "rank [wstr ''save2'', wstr ''save10'', wstr ''save1''] [wstr ''save1'', wstr ''save2'', wstr ''save10'']
   \<and> sorted_wrt (\<lambda>x y. compare x y \<noteq> Greater) [wstr ''save1'', wstr ''save2'', wstr ''save10'']"
proof -
  have n: "\<not> NaturalLess (wstr ''save2'') (wstr ''save1'')"
    "\<not> NaturalLess (wstr ''save10'') (wstr ''save1'')"
    "\<not> NaturalLess (wstr ''save10'') (wstr ''save2'')"
    by code_simp+
  have r: "rank [wstr ''save2'', wstr ''save10'', wstr ''save1''] [wstr ''save1'', wstr ''save2'', wstr ''save10'']"
    using n by (simp add: rank_def std_sort_post_def)
  show ?thesis
    using rank_sorted_permutation [of "[wstr ''save2'', wstr ''save10'', wstr ''save1'']"] r
    by blast
qed

section \<open>Facts about the file system model\<close>

lemma rfind_zero: "rfind s pat 0 = Some 0 \<longleftrightarrow> prefix pat s"
proof -
  have "prefix pat s \<longleftrightarrow> take (length pat) s = pat"
    by (metis append_eq_conv_conj prefix_def take_is_prefix)
  moreover have "length pat \<le> length s" if "take (length pat) s = pat"
  proof -
    have "length (take (length pat) s) \<le> length s" by simp
    then show ?thesis using that by simp
  qed
  ultimately show ?thesis by (auto simp: rfind_def)
qed

text \<open>
  The loop examines the entries up to the first one whose status query fails; that entry
  is not a regular file, and the round after it leaves the loop.
\<close>

lemma scan_entries_examined:
  "scan_entries es ec files
     = (if ec then files
        else files @ map fst (filter (\<lambda>(name, n). is_regular_file n \<and> prefix (wstr ''bf2savefile'') name)
                       (takeWhile (\<lambda>(name, n). \<not> status_fails n) es)))"
proof (induction es ec files rule: scan_entries.induct)
  case (1 ec files)
  then show ?case by simp
next
  case (2 name n es ec files)
  have "\<not> is_regular_file n" if "status_fails n"
    using that by (cases n) (simp_all add: status_fails_def is_regular_file_def)
  then show ?case
    using 2 by (auto simp: rfind_zero)
qed

lemma scan_entries_filter:
  assumes "\<forall>(name, n)\<in>set es. \<not> status_fails n"
  shows "scan_entries es False files
     = files @ map fst (filter (\<lambda>(name, n). is_regular_file n \<and> prefix (wstr ''bf2savefile'') name) es)"
proof -
  have "takeWhile (\<lambda>(name, n). \<not> status_fails n) es = es"
    using assms by (induction es) auto
  then show ?thesis by (simp only: scan_entries_examined if_False)
qed

lemma names_differ: "active_name \<noteq> config_name"
  by (simp add: active_name_def config_name_def wstr_def)

lemma entry_write_file:
  "entry (write_file w folder name c) folder' name'
     = (if folder' = folder \<and> name' = name \<and> (\<exists>r es. lookup_dir w folder = Dir r es)
        then Some (RegularFile c) else entry w folder' name')"
  by (auto simp: entry_def write_file_def update_conv' split: dir_status.splits)

lemma open_for_write_write_file:
  "name' \<noteq> name \<Longrightarrow>
   open_for_write (write_file w folder name c) folder' name' = open_for_write w folder' name'"
  by (auto simp: open_for_write_def write_file_def update_conv' split: dir_status.splits option.splits)

lemma exe_dir_write_file: "exe_dir (write_file w folder name c) = exe_dir w"
  by (simp add: write_file_def split: dir_status.splits)

lemma promote_cases:
  "snd (promote w folder s) = w \<or> (\<exists>x. snd (promote w folder s) = write_file w folder active_name x)"
  by (auto simp: promote_def copy_file_def split: option.splits node.splits)

lemma entry_SaveConfig_other:
  "name \<noteq> config_name \<Longrightarrow> entry (SaveConfig w f s p) folder name = entry w folder name"
  by (simp add: SaveConfig_def entry_write_file)

lemma ex_dirs:
  "lookup_dir example_world (wstr ''C:/saves'') = Dir True
           [(wstr ''bf2savefile3.sav'', RegularFile [0x58]),
            (wstr ''notes.txt'', RegularFile [0x6E]),
            (wstr ''bf2savefile_old'', SubDirectory),
            (wstr ''BF2savefile9.sav'', RegularFile [0x39]),
            (wstr ''bf2savefile.sav'', RegularFile [0x59])]"
  "lookup_dir example_world (wstr ''C:/nowhere'') = NoSuchPath"
  "lookup_dir example_world (wstr ''C:/app'') = Dir True []"
  "lookup_dir example_world (wstr ''C:/links'') = Dir True
           [(wstr ''aaa'', Unresolved),
            (wstr ''bf2savefile.sav'', RegularFile [0x59]),
            (wstr ''bf2savefile1.sav'', RegularFile [0x58])]"
  by (simp_all add: example_world_def wstr_def)

lemma ex_entries:
  "entry example_world (wstr ''C:/saves'') (wstr ''bf2savefile3.sav'') = Some (RegularFile [0x58])"
  "entry example_world (wstr ''C:/saves'') (wstr ''bf2savefile7.sav'') = None"
  "entry example_world (wstr ''C:/saves'') active_name = Some (RegularFile [0x59])"
  by (simp_all add: entry_def ex_dirs active_name_def) (simp_all add: wstr_def)

lemma ex_promote: "fst (promote example_world (wstr ''C:/saves'') (wstr ''bf2savefile3.sav'')) = ec_success"
  by (simp add: promote_def fs_exists_def copy_file_def ex_entries status_fails_def)
    (simp add: example_world_def wstr_def active_name_def)

lemma ex_open: "open_for_write example_world (exe_dir example_world) config_name"
  by (simp add: open_for_write_def example_world_def wstr_def)

lemma ex_dialog: "edit_dir example_dialog = wstr ''C:/saves''"
  "selected_file example_dialog = wstr ''bf2savefile3.sav''" "pin_checked example_dialog"
  by (simp_all add: example_dialog_def selected_file_def)

lemma ro_open: "\<not> open_for_write readonly_world (exe_dir readonly_world) config_name"
  by (simp add: open_for_write_def readonly_world_def example_world_def wstr_def)

lemma ro_promote: "fst (promote readonly_world (wstr ''C:/saves'') (wstr ''bf2savefile3.sav'')) = ec_success"
  by (simp add: promote_def fs_exists_def copy_file_def entry_def readonly_world_def ex_dirs
      status_fails_def)
    (simp add: example_world_def wstr_def active_name_def)

lemma ex_scan: "scan example_world (wstr ''C:/saves'') = [wstr ''bf2savefile3.sav'', wstr ''bf2savefile.sav'']"
  by (simp add: scan_def ex_dirs is_regular_file_def status_fails_def rfind_def) (simp add: wstr_def)

lemma ex_scan_links: "scan example_world (wstr ''C:/links'') = []"
  by (simp add: scan_def ex_dirs is_regular_file_def status_fails_def)

lemma ex_rank: "rank [wstr ''bf2savefile3.sav'', wstr ''bf2savefile.sav''] [wstr ''bf2savefile3.sav'', wstr ''bf2savefile.sav'']"
proof -
  have "\<not> NaturalLess (wstr ''bf2savefile.sav'') (wstr ''bf2savefile3.sav'')" by code_simp
  then show ?thesis by (simp add: rank_def std_sort_post_def)
qed

lemma promote_env:
  "exe_dir (snd (promote w folder s)) = exe_dir w"
  "open_for_write (snd (promote w folder s)) e config_name = open_for_write w e config_name"
  using promote_cases [of w folder s] names_differ
  by (auto simp: exe_dir_write_file open_for_write_write_file)

lemma open_for_write_Dir: "open_for_write w folder name \<Longrightarrow> \<exists>r es. lookup_dir w folder = Dir r es"
  by (auto simp: open_for_write_def split: dir_status.splits)

lemma promote_fst_write_denied:
  "fst (promote (w\<lparr>write_denied := (write_denied w)(e := (write_denied w e)(config_name := b))\<rparr>) folder s)
     = fst (promote w folder s)"
  using names_differ
  by (auto simp: promote_def fs_exists_def copy_file_def entry_def split: option.splits node.splits dir_status.splits)

section \<open>Claims about scanning\<close>

text \<open>
  As long as the status of every entry can be determined, \<open>scan\<close> returns exactly the
  names of the entries that are regular files and begin with the literal \<open>bf2savefile\<close>
  (matched on the raw code units, so case-sensitively, at position 0), in listing order.
  For a path that does not exist, is not a directory or cannot be enumerated it returns
  the empty sequence; \<open>scan\<close> has no error result.
\<close>

lemma scan_exactly_status_known:
  "(lookup_dir w folder = Dir True es \<and> (\<forall>(name, n)\<in>set es. \<not> status_fails n) \<longrightarrow>
      scan w folder
        = map fst (filter (\<lambda>(name, n). is_regular_file n \<and> prefix (wstr ''bf2savefile'') name) es))
   \<and> (lookup_dir w folder = NoSuchPath \<or> lookup_dir w folder = NotADirectory
        \<or> lookup_dir w folder = Dir False es \<longrightarrow> scan w folder = [])"
  by (auto simp: scan_def scan_entries_filter)

lemma active_file_is_candidate_status_known:
  assumes "lookup_dir w folder = Dir True es"
    and "\<forall>(name, n)\<in>set es. \<not> status_fails n"
    and "(active_name, RegularFile c) \<in> set es"
  shows "active_name \<in> set (scan w folder)
     \<and> (\<forall>items. PopulateFileDropdown w folder items \<longrightarrow> active_name \<in> set items)"
proof -
  have p: "prefix (wstr ''bf2savefile'') active_name"
    by (simp add: active_name_def wstr_def)
  have "scan w folder
      = map fst (filter (\<lambda>(name, n). is_regular_file n \<and> prefix (wstr ''bf2savefile'') name) es)"
    using assms(1,2) by (simp add: scan_def scan_entries_filter)
  then have s: "active_name \<in> set (scan w folder)"
    using assms(3) p by (force simp: is_regular_file_def)
  have "active_name \<in> set items" if "PopulateFileDropdown w folder items" for items
  proof -
    have "mset items = mset (scan w folder)"
      using that by (simp add: PopulateFileDropdown_def rank_def std_sort_post_def)
    then show ?thesis using s by (metis mset_eq_setD)
  qed
  then show ?thesis using s by blast
qed

text \<open>
  C8. \<open>scan\<close> is to return exactly the direct children that are regular files with the
  prefix. The loop tests \<open>ec\<close> at the start of every round, and \<open>ec\<close> is also what
  \<open>entry.is_regular_file(ec)\<close> writes: after an entry whose status cannot be determined
  the loop ends, and the entries listed after it are never examined. In the folder below
  a dangling link is listed before two regular files with the prefix, and \<open>scan\<close> returns
  nothing.
\<close>

theorem scan_stops_after_status_error:
  "lookup_dir example_world (wstr ''C:/links'')
     = Dir True [(wstr ''aaa'', Unresolved),
                 (wstr ''bf2savefile.sav'', RegularFile [0x59]),
                 (wstr ''bf2savefile1.sav'', RegularFile [0x58])]
   \<and> scan example_world (wstr ''C:/links'') = []"
  by (simp add: ex_dirs(4) ex_scan_links)

text \<open>
  C10. \<open>bf2savefile.sav\<close> passes the prefix filter, but it is a candidate only if the loop
  reaches it: in the same folder it exists as a regular file and is neither among the
  scanned names nor in the combo box, which stays empty.
\<close>

theorem active_file_hidden_after_status_error:
  "entry example_world (wstr ''C:/links'') active_name = Some (RegularFile [0x59])
   \<and> active_name \<notin> set (scan example_world (wstr ''C:/links''))
   \<and> PopulateFileDropdown example_world (wstr ''C:/links'') []"
  by (simp add: entry_def ex_dirs(4) ex_scan_links PopulateFileDropdown_def rank_def
      std_sort_post_def active_name_def) (simp add: wstr_def)

text \<open>When the model's promotion succeeds.\<close>

lemma promote_success_iff:
  "fst (promote w folder chosen) = ec_success \<longleftrightarrow>
     chosen \<noteq> [] \<and> (\<exists>x. entry w folder chosen = Some (RegularFile x)) \<and> chosen \<noteq> active_name
     \<and> entry w folder active_name \<noteq> Some SubDirectory
     \<and> entry w folder active_name \<noteq> Some OtherNode
     \<and> \<not> write_denied w folder active_name"
  by (auto simp: promote_def fs_exists_def copy_file_def status_fails_def
      split: option.splits node.splits)

lemma ex_dangling:
  "entry example_world (wstr ''C:/dangling'') (wstr ''bf2savefile2.sav'') = Some (RegularFile [0x58])"
  "entry example_world (wstr ''C:/dangling'') active_name = Some Unresolved"
  by (simp_all add: entry_def example_world_def active_name_def wstr_def)

lemma ex_promote_dangling:
  "fst (promote example_world (wstr ''C:/dangling'') (wstr ''bf2savefile2.sav'')) = ec_success"
  by (simp add: promote_success_iff ex_dangling) (simp add: example_world_def wstr_def active_name_def)

section \<open>Claims about the Overwrite button\<close>

text \<open>
  C3. If \<open>folder / chosen\<close> is a file with content \<open>X\<close> and the promotion succeeds, then
  \<open>folder / bf2savefile.sav\<close> holds exactly \<open>X\<close>, whatever it held before (nothing, other
  content, or a link whose target was missing), and it still does after the configuration
  is saved. By \<open>promote_success_iff\<close> the promotion succeeds exactly when the chosen name
  is a regular file other than \<open>bf2savefile.sav\<close>, the destination is not a directory or
  a special file, and the platform does not refuse the write.
\<close>

theorem promote_overwrites:
  assumes "chosen \<noteq> []"
    and "entry w folder chosen = Some (RegularFile X)"
    and "promote w folder chosen = (ec_success, w')"
  shows "entry w' folder active_name = Some (RegularFile X)
     \<and> entry (SaveConfig w' folder chosen p) folder active_name = Some (RegularFile X)"
proof -
  have d: "\<exists>r es. lookup_dir w folder = Dir r es"
    using assms(2) by (auto simp: entry_def split: dir_status.splits)
  have "w' = write_file w folder active_name X"
    using assms by (auto simp: promote_def fs_exists_def copy_file_def split: option.splits node.splits if_splits)
  then have "entry w' folder active_name = Some (RegularFile X)"
    using d by (simp add: entry_write_file)
  then show ?thesis by (simp add: entry_SaveConfig_other names_differ)
qed

theorem promote_overwrites_witness:
  "fst (promote example_world (wstr ''C:/saves'') (wstr ''bf2savefile3.sav'')) = ec_success
   \<and> entry example_world (wstr ''C:/saves'') active_name = Some (RegularFile [0x59])
   \<and> entry (snd (promote example_world (wstr ''C:/saves'') (wstr ''bf2savefile3.sav'')))
        (wstr ''C:/saves'') active_name = Some (RegularFile [0x58])
   \<and> fst (promote example_world (wstr ''C:/dangling'') (wstr ''bf2savefile2.sav'')) = ec_success
   \<and> entry example_world (wstr ''C:/dangling'') active_name = Some Unresolved
   \<and> entry (snd (promote example_world (wstr ''C:/dangling'') (wstr ''bf2savefile2.sav'')))
        (wstr ''C:/dangling'') active_name = Some (RegularFile [0x58])"
proof -
  have ne: "wstr ''bf2savefile3.sav'' \<noteq> []" "wstr ''bf2savefile2.sav'' \<noteq> []"
    by (simp_all add: wstr_def)
  have pr: "promote example_world (wstr ''C:/saves'') (wstr ''bf2savefile3.sav'')
      = (ec_success, snd (promote example_world (wstr ''C:/saves'') (wstr ''bf2savefile3.sav'')))"
    using ex_promote by (metis prod.collapse)
  have pd: "promote example_world (wstr ''C:/dangling'') (wstr ''bf2savefile2.sav'')
      = (ec_success, snd (promote example_world (wstr ''C:/dangling'') (wstr ''bf2savefile2.sav'')))"
    using ex_promote_dangling by (metis prod.collapse)
  show ?thesis
    using promote_overwrites [OF ne(1) ex_entries(1) pr] promote_overwrites [OF ne(2) ex_dangling(1) pd]
      ex_promote ex_entries(3) ex_promote_dangling ex_dangling(2)
    by simp
qed

text \<open>
  C4. If \<open>folder / chosen\<close> does not exist when the button is pressed (\<open>fs::exists\<close> is
  false: there is no such entry, or none whose status can be determined), the promotion
  fails with \<open>no_such_file_or_directory\<close>, the status shown is \<open>Failed\<close>, the file system
  is returned as it was, and \<open>folder / bf2savefile.sav\<close> is the same after the handler's
  \<open>SaveConfig\<close>.
\<close>

theorem promote_missing_source:
  assumes "\<not> fs_exists w folder chosen"
  shows "promote w folder chosen = (ec_no_such_file_or_directory, w)
     \<and> status_text (fst (promote w folder chosen)) = wstr ''Failed''
     \<and> entry (SaveConfig (snd (promote w folder chosen)) folder chosen p) folder active_name
         = entry w folder active_name"
  using assms by (simp add: promote_def status_text_def entry_SaveConfig_other names_differ)

theorem promote_missing_source_witness:
  "promote example_world (wstr ''C:/saves'') (wstr ''bf2savefile7.sav'')
     = (ec_no_such_file_or_directory, example_world)"
  using promote_missing_source [of example_world "wstr ''C:/saves''" "wstr ''bf2savefile7.sav''"]
  by (simp add: fs_exists_def ex_entries(2))

text \<open>
  C6 as stated fails: \<open>SaveConfig\<close> has no result, and a configuration file that cannot
  be opened goes unnoticed. In a world where the program's own folder refuses writes the
  handler still shows \<open>Success!\<close>, and no configuration file exists afterwards.
\<close>

theorem SaveConfig_failure_not_reported:
  "\<not> open_for_write readonly_world (exe_dir readonly_world) config_name
   \<and> fst (on_ok example_dialog readonly_world) = wstr ''Success!''
   \<and> LoadConfig (snd (on_ok example_dialog readonly_world)) = None"
proof -
  let ?w1 = "snd (promote readonly_world (wstr ''C:/saves'') (wstr ''bf2savefile3.sav''))"
  have e: "exe_dir ?w1 = wstr ''C:/app''"
    by (simp add: promote_env readonly_world_def example_world_def)
  have o: "\<not> open_for_write ?w1 (exe_dir ?w1) config_name"
    using ro_open by (simp add: promote_env)
  have s: "snd (on_ok example_dialog readonly_world) = ?w1"
    using o by (simp add: on_ok_def Let_def ex_dialog SaveConfig_def)
  have "entry ?w1 (wstr ''C:/app'') config_name = None"
    using promote_cases [of readonly_world "wstr ''C:/saves''" "wstr ''bf2savefile3.sav''"] names_differ
    by (auto simp: entry_write_file) (simp_all add: entry_def readonly_world_def ex_dirs)
  then have "LoadConfig ?w1 = None"
    by (simp add: LoadConfig_def e)
  moreover have "fst (on_ok example_dialog readonly_world) = wstr ''Success!''"
    by (simp add: on_ok_def Let_def ex_dialog ro_promote status_text_def)
  ultimately show ?thesis using ro_open s by simp
qed

text \<open>
  C6, amended. \<open>SaveConfig\<close> reports nothing: when the configuration file cannot be
  opened it leaves the file system as it was, and the status that the handler shows is
  the outcome of the copy alone, the same whether or not the platform lets the
  configuration file be written.
\<close>

theorem SaveConfig_silent:
  "(\<not> open_for_write w (exe_dir w) config_name \<longrightarrow> SaveConfig w folder file p = w)
   \<and> fst (on_ok d w) = status_text (fst (promote w (edit_dir d) (selected_file d)))
   \<and> fst (on_ok d (w\<lparr>write_denied := (write_denied w)(exe_dir w := (write_denied w (exe_dir w))(config_name := b))\<rparr>))
       = fst (on_ok d w)"
  by (simp add: SaveConfig_def on_ok_def Let_def promote_fst_write_denied)

theorem SaveConfig_silent_witness:
  "SaveConfig readonly_world (wstr ''C:/saves'') (wstr ''bf2savefile3.sav'') True = readonly_world"
  using SaveConfig_silent [of readonly_world "wstr ''C:/saves''" "wstr ''bf2savefile3.sav''" True] ro_open
  by simp

section \<open>The text conversion round trip\<close>

lemma utf8_decode1: "b < 0x80 \<Longrightarrow> utf8_decode (b # rest) = b # utf8_decode rest"
  by (simp add: utf8_decode.simps(2))

lemma utf8_decode2:
  "0xC2 \<le> b \<Longrightarrow> b \<le> 0xDF \<Longrightarrow> is_cont b1 \<Longrightarrow>
   utf8_decode (b # b1 # rest) = cp2 b b1 # utf8_decode rest"
  by (simp add: utf8_decode.simps(2))

lemma utf8_decode3:
  "0xE0 \<le> b \<Longrightarrow> b \<le> 0xEF \<Longrightarrow> is_cont b1 \<Longrightarrow> is_cont b2 \<Longrightarrow> 0x800 \<le> cp3 b b1 b2 \<Longrightarrow>
   \<not> (0xD800 \<le> cp3 b b1 b2 \<and> cp3 b b1 b2 \<le> 0xDFFF) \<Longrightarrow>
   utf8_decode (b # b1 # b2 # rest) = cp3 b b1 b2 # utf8_decode rest"
  by (simp add: utf8_decode.simps(2))

lemma utf8_decode4:
  "0xF0 \<le> b \<Longrightarrow> b \<le> 0xF4 \<Longrightarrow> is_cont b1 \<Longrightarrow> is_cont b2 \<Longrightarrow> is_cont b3 \<Longrightarrow>
   0x10000 \<le> cp4 b b1 b2 b3 \<Longrightarrow> cp4 b b1 b2 b3 \<le> 0x10FFFF \<Longrightarrow>
   utf8_decode (b # b1 # b2 # b3 # rest) = cp4 b b1 b2 b3 # utf8_decode rest"
  by (simp add: utf8_decode.simps(2))

lemma is_cont_mod: "is_cont (0x80 + x mod 0x40)"
proof -
  have "x mod 0x40 < 0x40" by simp
  then show ?thesis unfolding is_cont_def by linarith
qed

lemma split3:
  "(cp::nat) = cp div 0x1000 * 0x1000 + cp div 0x40 mod 0x40 * 0x40 + cp mod 0x40"
proof -
  have "cp mod 0x1000 = 0x40 * (cp div 0x40 mod 0x40) + cp mod 0x40"
    using mod_mult2_eq [of cp 64 64] by simp
  then show ?thesis
    using div_mult_mod_eq [of cp 4096] by linarith
qed

lemma split4:
  "(cp::nat) = cp div 0x40000 * 0x40000 + cp div 0x1000 mod 0x40 * 0x1000
      + cp div 0x40 mod 0x40 * 0x40 + cp mod 0x40"
proof -
  have "cp mod 0x40000 = 0x1000 * (cp div 0x1000 mod 0x40) + cp mod 0x1000"
    using mod_mult2_eq [of cp 4096 64] by simp
  moreover have "cp mod 0x1000 = 0x40 * (cp div 0x40 mod 0x40) + cp mod 0x40"
    using mod_mult2_eq [of cp 64 64] by simp
  ultimately show ?thesis
    using div_mult_mod_eq [of cp 262144] by linarith
qed

lemma decode_encode1:
  assumes "cp < 0x80"
  shows "utf8_decode (utf8_encode_cp cp @ rest) = cp # utf8_decode rest"
  using assms by (simp add: utf8_encode_cp_def utf8_decode1)

lemma decode_encode2:
  assumes "0x80 \<le> cp" "cp < 0x800"
  shows "utf8_decode (utf8_encode_cp cp @ rest) = cp # utf8_decode rest"
proof -
  have enc: "utf8_encode_cp cp = [0xC0 + cp div 0x40, 0x80 + cp mod 0x40]"
    using assms by (simp add: utf8_encode_cp_def)
  have lo: "0xC2 \<le> 0xC0 + cp div 0x40" using assms by linarith
  have hi: "0xC0 + cp div 0x40 \<le> 0xDF" using assms by linarith
  have val: "cp2 (0xC0 + cp div 0x40) (0x80 + cp mod 0x40) = cp"
    by (simp add: cp2_def)
  show ?thesis
    unfolding enc using utf8_decode2 [OF lo hi is_cont_mod, of cp rest] val by simp
qed

lemma decode_encode3:
  assumes "0x800 \<le> cp" "cp < 0x10000" "\<not> (0xD800 \<le> cp \<and> cp \<le> 0xDFFF)"
  shows "utf8_decode (utf8_encode_cp cp @ rest) = cp # utf8_decode rest"
proof -
  have enc: "utf8_encode_cp cp
      = [0xE0 + cp div 0x1000, 0x80 + cp div 0x40 mod 0x40, 0x80 + cp mod 0x40]"
    using assms by (simp add: utf8_encode_cp_def)
  have lo: "0xE0 \<le> 0xE0 + cp div 0x1000" by simp
  have hi: "0xE0 + cp div 0x1000 \<le> 0xEF" using assms by linarith
  have "cp div 0x1000 * 0x1000 + cp div 0x40 mod 0x40 * 0x40 + cp mod 0x40 = cp"
    using split3 [of cp] by simp
  then have val: "cp3 (0xE0 + cp div 0x1000) (0x80 + cp div 0x40 mod 0x40) (0x80 + cp mod 0x40) = cp"
    by (simp add: cp3_def)
  show ?thesis
    unfolding enc
    using utf8_decode3 [OF lo hi is_cont_mod is_cont_mod, of "cp div 0x40" cp rest] assms
    unfolding val by simp
qed

lemma decode_encode4:
  assumes "0x10000 \<le> cp" "cp < 0x110000"
  shows "utf8_decode (utf8_encode_cp cp @ rest) = cp # utf8_decode rest"
proof -
  have enc: "utf8_encode_cp cp
      = [0xF0 + cp div 0x40000, 0x80 + cp div 0x1000 mod 0x40,
         0x80 + cp div 0x40 mod 0x40, 0x80 + cp mod 0x40]"
    using assms by (simp add: utf8_encode_cp_def)
  have lo: "0xF0 \<le> 0xF0 + cp div 0x40000" by simp
  have hi: "0xF0 + cp div 0x40000 \<le> 0xF4" using assms by linarith
  have "cp div 0x40000 * 0x40000 + cp div 0x1000 mod 0x40 * 0x1000
      + cp div 0x40 mod 0x40 * 0x40 + cp mod 0x40 = cp"
    using split4 [of cp] by simp
  then have val: "cp4 (0xF0 + cp div 0x40000) (0x80 + cp div 0x1000 mod 0x40)
      (0x80 + cp div 0x40 mod 0x40) (0x80 + cp mod 0x40) = cp"
    by (simp add: cp4_def)
  show ?thesis
    unfolding enc
    using utf8_decode4 [OF lo hi is_cont_mod is_cont_mod is_cont_mod,
        of "cp div 0x1000" "cp div 0x40" cp rest] assms
    unfolding val by simp
qed

lemma decode_encode:
  assumes "scalar cp"
  shows "utf8_decode (utf8_encode_cp cp @ rest) = cp # utf8_decode rest"
proof -
  consider "cp < 0x80" | "0x80 \<le> cp" "cp < 0x800" | "0x800 \<le> cp" "cp < 0x10000"
    | "0x10000 \<le> cp"
    by linarith
  then show ?thesis
    using assms decode_encode1 decode_encode2 decode_encode3 decode_encode4
    unfolding scalar_def by cases blast+
qed

lemma decode_encode_all:
  "\<forall>cp\<in>set cps. scalar cp \<Longrightarrow> utf8_decode (concat (map utf8_encode_cp cps)) = cps"
  by (induction cps) (simp_all add: decode_encode)

lemma encode_bytes_lt: "cp < 0x110000 \<Longrightarrow> b \<in> set (utf8_encode_cp cp) \<Longrightarrow> b < 256"
proof -
  assume cp: "cp < 0x110000" and b: "b \<in> set (utf8_encode_cp cp)"
  have m: "cp mod 0x40 < 0x40" "cp div 0x40 mod 0x40 < 0x40" "cp div 0x1000 mod 0x40 < 0x40"
    by simp_all
  have d: "cp < 0x800 \<Longrightarrow> cp div 0x40 < 0x20" "cp < 0x10000 \<Longrightarrow> cp div 0x1000 < 0x10"
    "cp div 0x40000 < 5"
    using cp by linarith+
  show ?thesis
    using b m d unfolding utf8_encode_cp_def
    by (auto split: if_splits)
qed

lemma encode_bytes_ascii: "b \<in> set (utf8_encode_cp cp) \<Longrightarrow> b < 0x80 \<Longrightarrow> b = cp"
  unfolding utf8_encode_cp_def by (auto split: if_splits)

lemma unit_scalar:
  assumes "\<not> is_high_surrogate c" "\<not> is_low_surrogate c"
  shows "unit_cp c = unat c" and "scalar (unat c)" and "utf16_encode_cp (unat c) = [c]"
proof -
  have lt: "unat c < 0x10000" using unsigned_less [of c] by simp
  show "unit_cp c = unat c" using assms by (simp add: unit_cp_def)
  have "\<not> (0xD800 \<le> unat c \<and> unat c \<le> 0xDFFF)"
    using assms unfolding is_high_surrogate_def is_low_surrogate_def word_le_nat_alt
    by simp linarith
  then show "scalar (unat c)" using lt by (simp add: scalar_def)
  show "utf16_encode_cp (unat c) = [c]" using lt by (simp add: utf16_encode_cp_def)
qed

lemma pair_scalar:
  assumes "is_high_surrogate c" "is_low_surrogate d"
  defines "cp \<equiv> 0x10000 + (unat c - 0xD800) * 0x400 + (unat d - 0xDC00)"
  shows "scalar cp" and "utf16_encode_cp cp = [c, d]" and "\<not> cp < 0x80"
proof -
  have c: "0xD800 \<le> unat c" "unat c \<le> 0xDBFF"
    using assms(1) by (simp_all add: is_high_surrogate_def word_le_nat_alt)
  have d: "0xDC00 \<le> unat d" "unat d \<le> 0xDFFF"
    using assms(2) by (simp_all add: is_low_surrogate_def word_le_nat_alt)
  define h where "h = unat c - 0xD800"
  define l where "l = unat d - 0xDC00"
  have h: "h \<le> 0x3FF" "unat c = 0xD800 + h" using c by (simp_all add: h_def)
  have l: "l < 0x400" "unat d = 0xDC00 + l" using d by (simp_all add: l_def)
  have cp: "cp = 0x10000 + h * 0x400 + l" by (simp add: cp_def h_def l_def)
  show "scalar cp" using h l unfolding cp scalar_def by linarith
  show "\<not> cp < 0x80" unfolding cp by simp
  have "(h * 0x400 + l) div 0x400 = h" "(h * 0x400 + l) mod 0x400 = l"
    using l(1) by simp_all
  then have "utf16_encode_cp cp = [of_nat (unat c), of_nat (unat d)]"
    unfolding cp by (simp add: utf16_encode_cp_def h(2) l(2))
  then show "utf16_encode_cp cp = [c, d]" by simp
qed

lemma utf16_round_trip:
  "well_formed s \<Longrightarrow>
   (\<forall>cp\<in>set (utf16_decode s). scalar cp) \<and> concat (map utf16_encode_cp (utf16_decode s)) = s"
proof (induction s rule: utf16_decode.induct)
  case 1
  then show ?case by simp
next
  case (2 c)
  then show ?case by (simp add: unit_scalar)
next
  case (3 c d cs)
  show ?case
  proof (cases "is_high_surrogate c \<and> is_low_surrogate d")
    case True
    then have "well_formed cs" using "3.prems" by simp
    then show ?thesis
      using True "3.IH"(1) pair_scalar(1,2) [of c d] by simp
  next
    case False
    then have w: "\<not> is_high_surrogate c" "\<not> is_low_surrogate c" "well_formed (d # cs)"
      using "3.prems" by (auto split: if_splits)
    show ?thesis
      using False "3.IH"(2) w unit_scalar [OF w(1,2)] by simp
  qed
qed

lemma utf16_decode_ascii:
  "cp \<in> set (utf16_decode s) \<Longrightarrow> cp < 0x80 \<Longrightarrow> \<exists>c\<in>set s. unat c = cp"
proof (induction s rule: utf16_decode.induct)
  case 1
  then show ?case by simp
next
  case (2 c)
  then show ?case by (auto simp: unit_cp_def split: if_splits)
next
  case (3 c d cs)
  show ?case
  proof (cases "is_high_surrogate c \<and> is_low_surrogate d")
    case True
    then show ?thesis
      using "3.prems" "3.IH"(1) pair_scalar(3) [of c d] by auto
  next
    case False
    then show ?thesis
      using "3.prems" "3.IH"(2) by (auto simp: unit_cp_def split: if_splits)
  qed
qed

lemma unat_of_nat_byte: "n < 256 \<Longrightarrow> unat (of_nat n :: byte) = n"
  by (simp add: unat_of_nat)

lemma map_unat_of_nat_bytes:
  "\<forall>x\<in>set xs. x < 256 \<Longrightarrow> map unat (map of_nat xs :: bytes) = xs"
  by (induction xs) (simp_all add: unat_of_nat_byte)

lemma WideChar_bytes:
  assumes "well_formed s"
  shows "map unat (WideCharToMultiByte_utf8 s) = concat (map utf8_encode_cp (utf16_decode s))"
proof -
  have "b < 256" if "b \<in> set (concat (map utf8_encode_cp (utf16_decode s)))" for b
  proof -
    have "\<exists>cp\<in>set (utf16_decode s). b \<in> set (utf8_encode_cp cp)"
      using that by simp
    then obtain cp where cp: "cp \<in> set (utf16_decode s)" "b \<in> set (utf8_encode_cp cp)"
      by blast
    then have "scalar cp" using utf16_round_trip [OF assms] by blast
    then show ?thesis using cp(2) encode_bytes_lt unfolding scalar_def by blast
  qed
  then have "\<forall>b\<in>set (concat (map utf8_encode_cp (utf16_decode s))). b < 256"
    by blast
  then show ?thesis
    unfolding WideCharToMultiByte_utf8_def by (rule map_unat_of_nat_bytes)
qed

lemma WideChar_ascii:
  assumes "well_formed s" "b \<in> set (WideCharToMultiByte_utf8 s)" "b < 0x80"
  shows "\<exists>c\<in>set s. unat c = unat b"
proof -
  have "unat b \<in> set (map unat (WideCharToMultiByte_utf8 s))"
    using assms(2) by simp
  then have "unat b \<in> set (concat (map utf8_encode_cp (utf16_decode s)))"
    by (simp only: WideChar_bytes [OF assms(1)])
  then have "\<exists>cp\<in>set (utf16_decode s). unat b \<in> set (utf8_encode_cp cp)"
    by simp
  then obtain cp where cp: "cp \<in> set (utf16_decode s)" "unat b \<in> set (utf8_encode_cp cp)"
    by blast
  have "unat b < 0x80" using assms(3) by (simp add: word_less_nat_alt)
  then have "unat b = cp" "cp < 0x80" using cp(2) encode_bytes_ascii by auto
  then show ?thesis using cp(1) utf16_decode_ascii by auto
qed

lemma WideChar_avoids:
  assumes "well_formed s"
  shows "0 \<notin> set s \<Longrightarrow> 0 \<notin> set (WideCharToMultiByte_utf8 s)"
    and "0x0A \<notin> set s \<Longrightarrow> 0x0A \<notin> set (WideCharToMultiByte_utf8 s)"
proof -
  show "0 \<notin> set (WideCharToMultiByte_utf8 s)" if "0 \<notin> set s"
  proof
    assume "0 \<in> set (WideCharToMultiByte_utf8 s)"
    then obtain c where "c \<in> set s" "unat c = unat (0 :: byte)"
      using WideChar_ascii [OF assms, of 0] by auto
    then have "c = 0" by (simp add: unat_eq_0)
    then show False using that \<open>c \<in> set s\<close> by simp
  qed
  show "0x0A \<notin> set (WideCharToMultiByte_utf8 s)" if "0x0A \<notin> set s"
  proof
    assume "0x0A \<in> set (WideCharToMultiByte_utf8 s)"
    then obtain c where c: "c \<in> set s" "unat c = unat (0x0A :: byte)"
      using WideChar_ascii [OF assms, of "0x0A"] by auto
    then have "unat c = unat (0x0A :: wchar)" by simp
    then have "c = 0x0A" by (simp only: word_unat_eq_iff)
    then show False using that c(1) by simp
  qed
qed

lemma MultiByte_WideChar:
  assumes "well_formed s"
  shows "MultiByteToWideChar_utf8 (WideCharToMultiByte_utf8 s) = s"
  using utf16_round_trip [OF assms]
  by (simp add: MultiByteToWideChar_utf8_def WideChar_bytes [OF assms] decode_encode_all)

lemma takeWhile_all: "x \<notin> set xs \<Longrightarrow> takeWhile (\<lambda>c. c \<noteq> x) xs = xs"
  by (induction xs) auto

lemma FromUtf8_alt: "FromUtf8 bs = MultiByteToWideChar_utf8 (takeWhile (\<lambda>c. c \<noteq> 0) bs)"
  by (simp add: FromUtf8_def MultiByteToWideChar_utf8_def)

lemma ToUtf8_path_text:
  assumes "path_text s"
  shows "ToUtf8 s = WideCharToMultiByte_utf8 s"
  using assms by (cases "s = []")
    (simp_all add: ToUtf8_def path_text_def takeWhile_all WideCharToMultiByte_utf8_def)

lemma FromUtf8_ToUtf8:
  assumes "path_text s"
  shows "FromUtf8 (ToUtf8 s) = s"
proof -
  have w: "well_formed s" "0 \<notin> set s" using assms by (simp_all add: path_text_def)
  have "takeWhile (\<lambda>c. c \<noteq> 0) (WideCharToMultiByte_utf8 s) = WideCharToMultiByte_utf8 s"
    using WideChar_avoids(1) [OF w] by (rule takeWhile_all)
  then have "FromUtf8 (WideCharToMultiByte_utf8 s) = s"
    using MultiByte_WideChar [OF w(1)] by (simp only: FromUtf8_alt)
  then show ?thesis by (simp add: ToUtf8_path_text [OF assms])
qed

lemma ToUtf8_no_line_feed: "path_text s \<Longrightarrow> 0x0A \<notin> set (ToUtf8 s)"
  using WideChar_avoids(2) [of s] by (simp add: ToUtf8_path_text path_text_def)

lemma getlines_line:
  "0x0A \<notin> set xs \<Longrightarrow> getlines cur (xs @ 0x0A # rest) = (cur @ xs) # getlines [] rest"
  by (induction xs arbitrary: cur) auto

lemma getlines_config_text:
  assumes "0x0A \<notin> set (ToUtf8 folder)" "0x0A \<notin> set (ToUtf8 file)"
  shows "getlines [] (config_text folder file p)
     = [bstr ''directory='' @ ToUtf8 folder, bstr ''file='' @ ToUtf8 file,
        bstr ''pin='' @ (if p then bstr ''1'' else bstr ''0'')]"
proof -
  have 1: "0x0A \<notin> set (bstr ''directory='' @ ToUtf8 folder)"
    using assms(1) by (simp add: bstr_def)
  have 2: "0x0A \<notin> set (bstr ''file='' @ ToUtf8 file)"
    using assms(2) by (simp add: bstr_def)
  have 3: "0x0A \<notin> set (bstr ''pin='' @ (if p then bstr ''1'' else bstr ''0''))"
    by (simp add: bstr_def)
  have "config_text folder file p
      = (bstr ''directory='' @ ToUtf8 folder) @ 0x0A #
        ((bstr ''file='' @ ToUtf8 file) @ 0x0A #
         ((bstr ''pin='' @ (if p then bstr ''1'' else bstr ''0'')) @ 0x0A # []))"
    by (simp add: config_text_def)
  then show ?thesis
    by (simp only: getlines_line [OF 1] getlines_line [OF 2] getlines_line [OF 3]
        getlines.simps append_Nil) simp
qed

lemma config_lines:
  "config_line v (bstr ''directory='' @ u) = v\<lparr>cfg_folder := FromUtf8 u\<rparr>"
  "config_line v (bstr ''file='' @ u) = v\<lparr>cfg_file := FromUtf8 u\<rparr>"
  "config_line v (bstr ''pin='' @ (if p then bstr ''1'' else bstr ''0'')) = v\<lparr>cfg_pin := p\<rparr>"
  by (simp_all add: config_line_def rfind_zero) (simp_all add: bstr_def)

lemma parse_config_text:
  assumes "path_text folder" "path_text file"
  shows "parse_config (config_text folder file p)
     = \<lparr>cfg_folder = folder, cfg_file = file, cfg_pin = p\<rparr>"
  using assms
  by (simp add: parse_config_def getlines_config_text ToUtf8_no_line_feed config_lines
      FromUtf8_ToUtf8 del: append.simps)

lemma ex_path_text:
  "path_text [0x43, 0x3A, 0x2F, 0xE9, 0x4E2D, 0xD83D, 0xDE00]"
  "path_text (wstr ''bf2savefile1.sav'')"
  by (simp_all add: path_text_def wstr_def is_high_surrogate_def is_low_surrogate_def)

lemma ToUtf8_example:
  "ToUtf8 [0xE9, 0x4E2D, 0xD83D, 0xDE00] = [0xC3, 0xA9, 0xE4, 0xB8, 0xAD, 0xF0, 0x9F, 0x98, 0x80]"
  by (simp add: ToUtf8_def WideCharToMultiByte_utf8_def utf8_encode_cp_def unit_cp_def
      is_high_surrogate_def is_low_surrogate_def)

lemma lone_surrogate_replaced: "ToUtf8 [0xD83D] = [0xEF, 0xBF, 0xBD]"
  by (simp add: ToUtf8_def WideCharToMultiByte_utf8_def utf8_encode_cp_def unit_cp_def
      is_high_surrogate_def is_low_surrogate_def)

section \<open>Claims about the configuration file\<close>

text \<open>
  C7. For every folder and file name that are text in the sense of \<open>path_text\<close>
  (characters of any range, not only single-byte ones) and every pin state, if the
  configuration file can be opened for writing, then what \<open>LoadConfig\<close> reads back after
  \<open>SaveConfig\<close> is exactly the folder, the file name and the pin state that were saved.
\<close>

theorem config_round_trip:
  assumes "open_for_write w (exe_dir w) config_name"
    and "path_text folder" and "path_text file"
  shows "LoadConfig (SaveConfig w folder file pinOnTop)
     = Some \<lparr>cfg_folder = folder, cfg_file = file, cfg_pin = pinOnTop\<rparr>"
proof -
  have d: "\<exists>r es. lookup_dir w (exe_dir w) = Dir r es"
    using assms(1) by (rule open_for_write_Dir)
  have s: "SaveConfig w folder file pinOnTop
      = write_file w (exe_dir w) config_name (config_text folder file pinOnTop)"
    using assms(1) by (simp add: SaveConfig_def)
  have "entry (SaveConfig w folder file pinOnTop) (exe_dir w) config_name
      = Some (RegularFile (config_text folder file pinOnTop))"
    unfolding s using d by (simp add: entry_write_file)
  moreover have "exe_dir (SaveConfig w folder file pinOnTop) = exe_dir w"
    unfolding s by (rule exe_dir_write_file)
  ultimately show ?thesis
    by (simp add: LoadConfig_def parse_config_text [OF assms(2,3)])
qed

theorem config_round_trip_witness:
  "LoadConfig (SaveConfig example_world [0x43, 0x3A, 0x2F, 0xE9, 0x4E2D, 0xD83D, 0xDE00]
       (wstr ''bf2savefile1.sav'') True)
     = Some \<lparr>cfg_folder = [0x43, 0x3A, 0x2F, 0xE9, 0x4E2D, 0xD83D, 0xDE00],
              cfg_file = wstr ''bf2savefile1.sav'', cfg_pin = True\<rparr>"
  using config_round_trip [OF ex_open ex_path_text] .

section \<open>Claims about what the Overwrite button persists\<close>

lemma promote_config_entry:
  "entry (snd (promote w folder s)) e config_name = entry w e config_name"
  using promote_cases [of w folder s] names_differ
  by (auto simp: entry_write_file)

lemma on_ok_world:
  "snd (on_ok d w)
     = SaveConfig (snd (promote w (edit_dir d) (selected_file d)))
         (edit_dir d) (selected_file d) (pin_checked d)"
  by (simp add: on_ok_def Let_def)

lemma on_ok_writes_config:
  assumes "open_for_write w (exe_dir w) config_name"
  shows "entry (snd (on_ok d w)) (exe_dir w) config_name
     = Some (RegularFile (config_text (edit_dir d) (selected_file d) (pin_checked d)))"
proof -
  let ?w1 = "snd (promote w (edit_dir d) (selected_file d))"
  have o1: "open_for_write ?w1 (exe_dir ?w1) config_name"
    using assms by (simp add: promote_env)
  then have "\<exists>r es. lookup_dir ?w1 (exe_dir ?w1) = Dir r es"
    by (rule open_for_write_Dir)
  then show ?thesis
    unfolding on_ok_world using o1 by (simp add: SaveConfig_def entry_write_file promote_env)
qed

lemma exe_dir_SaveConfig: "exe_dir (SaveConfig w f s p) = exe_dir w"
  by (simp add: SaveConfig_def exe_dir_write_file)

lemma exe_dir_on_ok: "exe_dir (snd (on_ok d w)) = exe_dir w"
  by (simp add: on_ok_world exe_dir_SaveConfig promote_env)

lemma on_ok_loads_config:
  assumes "open_for_write w (exe_dir w) config_name"
    and "path_text (edit_dir d)" and "path_text (selected_file d)"
  shows "LoadConfig (snd (on_ok d w))
     = Some \<lparr>cfg_folder = edit_dir d, cfg_file = selected_file d, cfg_pin = pin_checked d\<rparr>"
  using on_ok_writes_config [OF assms(1), of d]
  by (simp add: LoadConfig_def exe_dir_on_ok parse_config_text [OF assms(2,3)])

lemma on_ok_keeps_config:
  assumes "\<not> open_for_write w (exe_dir w) config_name"
  shows "LoadConfig (snd (on_ok d w)) = LoadConfig w"
proof -
  let ?w1 = "snd (promote w (edit_dir d) (selected_file d))"
  have "\<not> open_for_write ?w1 (exe_dir ?w1) config_name"
    using assms by (simp add: promote_env)
  then have "snd (on_ok d w) = ?w1"
    by (simp add: on_ok_world SaveConfig_def)
  then show ?thesis
    by (simp add: LoadConfig_def promote_env promote_config_entry)
qed

lemma ex_no_selection:
  "edit_dir no_selection_dialog = wstr ''C:/saves''"
  "selected_file no_selection_dialog = []" "pin_checked no_selection_dialog"
  by (simp_all add: no_selection_dialog_def example_dialog_def selected_file_def)

lemma ascii_path_text:
  "path_text (wstr ''C:/saves'')" "path_text []" "path_text (wstr ''bf2savefile3.sav'')"
  "path_text (wstr ''C:/old'')" "path_text (wstr ''bf2savefile1.sav'')"
  by (simp_all add: path_text_def wstr_def is_high_surrogate_def is_low_surrogate_def)

lemma ascii_ToUtf8:
  "ToUtf8 (wstr ''C:/saves'') = bstr ''C:/saves''"
  "ToUtf8 (wstr ''bf2savefile3.sav'') = bstr ''bf2savefile3.sav''"
  by (simp_all add: ToUtf8_def WideCharToMultiByte_utf8_def utf8_encode_cp_def unit_cp_def
      is_high_surrogate_def is_low_surrogate_def wstr_def bstr_def)

lemma stale_open: "\<not> open_for_write stale_world (exe_dir stale_world) config_name"
  by (simp add: open_for_write_def stale_world_def example_world_def wstr_def)

lemma stale_load:
  "LoadConfig stale_world
     = Some \<lparr>cfg_folder = wstr ''C:/old'', cfg_file = wstr ''bf2savefile1.sav'', cfg_pin = False\<rparr>"
proof -
  have "entry stale_world (exe_dir stale_world) config_name
      = Some (RegularFile (config_text (wstr ''C:/old'') (wstr ''bf2savefile1.sav'') False))"
    by (simp add: entry_def stale_world_def example_world_def config_name_def)
  then show ?thesis
    by (simp add: LoadConfig_def parse_config_text ascii_path_text)
qed

text \<open>
  C5 as stated fails: \<open>SaveConfig\<close> is called after every promotion, but the persisted
  state records the values only if the configuration file can be written. In a world
  where the program's folder refuses writes and holds an older configuration file, a
  failed promotion with folder \<open>C:/saves\<close>, no selection and the pin set leaves the old
  folder, file and pin as the persisted state.
\<close>

theorem failed_save_keeps_old_state:
  "fst (on_ok no_selection_dialog stale_world) = wstr ''Failed''
   \<and> edit_dir no_selection_dialog = wstr ''C:/saves''
   \<and> pin_checked no_selection_dialog
   \<and> LoadConfig (snd (on_ok no_selection_dialog stale_world))
       = Some \<lparr>cfg_folder = wstr ''C:/old'', cfg_file = wstr ''bf2savefile1.sav'', cfg_pin = False\<rparr>"
proof -
  have f: "fst (on_ok no_selection_dialog stale_world) = wstr ''Failed''"
    by (simp add: on_ok_def Let_def ex_no_selection promote_def status_text_def)
  have "LoadConfig (snd (on_ok no_selection_dialog stale_world)) = LoadConfig stale_world"
    using stale_open by (rule on_ok_keeps_config)
  then show ?thesis using f stale_load ex_no_selection by simp
qed

text \<open>
  C5, amended. Whatever the outcome of the copy, the handler calls \<open>SaveConfig\<close>
  afterwards with the folder text, the selected name and the pin state. Whenever the
  configuration file can be opened for writing, the file then holds exactly the three
  lines \<open>directory=\<close>, \<open>file=\<close> and \<open>pin=\<close> with these values in UTF-8, and for values that
  are text \<open>LoadConfig\<close> reads exactly these values back. When the file cannot be opened,
  the persisted state is what it was before.
\<close>

theorem on_ok_saves_config:
  "snd (on_ok d w)
     = SaveConfig (snd (promote w (edit_dir d) (selected_file d)))
         (edit_dir d) (selected_file d) (pin_checked d)
   \<and> (open_for_write w (exe_dir w) config_name \<longrightarrow>
        entry (snd (on_ok d w)) (exe_dir w) config_name
          = Some (RegularFile
              (bstr ''directory='' @ ToUtf8 (edit_dir d) @ [0x0A]
               @ bstr ''file='' @ ToUtf8 (selected_file d) @ [0x0A]
               @ bstr ''pin='' @ (if pin_checked d then bstr ''1'' else bstr ''0'') @ [0x0A])))
   \<and> (open_for_write w (exe_dir w) config_name \<and> path_text (edit_dir d)
        \<and> path_text (selected_file d) \<longrightarrow>
        LoadConfig (snd (on_ok d w))
          = Some \<lparr>cfg_folder = edit_dir d, cfg_file = selected_file d, cfg_pin = pin_checked d\<rparr>)
   \<and> (\<not> open_for_write w (exe_dir w) config_name \<longrightarrow>
        LoadConfig (snd (on_ok d w)) = LoadConfig w)"
  using on_ok_world [of d w] on_ok_writes_config [of w d] on_ok_loads_config [of w d]
    on_ok_keeps_config [of w d]
  by (simp add: config_text_def)

theorem on_ok_saves_config_witness:
  "fst (on_ok no_selection_dialog example_world) = wstr ''Failed''
   \<and> LoadConfig (snd (on_ok no_selection_dialog example_world))
       = Some \<lparr>cfg_folder = wstr ''C:/saves'', cfg_file = [], cfg_pin = True\<rparr>
   \<and> fst (on_ok example_dialog example_world) = wstr ''Success!''
   \<and> entry (snd (on_ok example_dialog example_world)) (wstr ''C:/app'') config_name
       = Some (RegularFile
           (bstr ''directory=C:/saves'' @ [0x0A] @ bstr ''file=bf2savefile3.sav'' @ [0x0A]
            @ bstr ''pin=1'' @ [0x0A]))"
proof -
  have f: "fst (on_ok no_selection_dialog example_world) = wstr ''Failed''"
    by (simp add: on_ok_def Let_def ex_no_selection promote_def status_text_def)
  have s: "fst (on_ok example_dialog example_world) = wstr ''Success!''"
    by (simp add: on_ok_def Let_def ex_dialog ex_promote status_text_def)
  have e: "exe_dir example_world = wstr ''C:/app''"
    by (simp add: example_world_def)
  have l: "LoadConfig (snd (on_ok no_selection_dialog example_world))
       = Some \<lparr>cfg_folder = wstr ''C:/saves'', cfg_file = [], cfg_pin = True\<rparr>"
    using on_ok_saves_config [of no_selection_dialog example_world,
        THEN conjunct2, THEN conjunct2, THEN conjunct1] ex_open
    by (simp add: ex_no_selection ascii_path_text)
  have c: "entry (snd (on_ok example_dialog example_world)) (wstr ''C:/app'') config_name
       = Some (RegularFile
           (bstr ''directory=C:/saves'' @ [0x0A] @ bstr ''file=bf2savefile3.sav'' @ [0x0A]
            @ bstr ''pin=1'' @ [0x0A]))"
    using on_ok_saves_config [of example_dialog example_world, THEN conjunct2, THEN conjunct1]
      ex_open
    by (simp add: ex_dialog ascii_ToUtf8 e) (simp add: bstr_def)
  show ?thesis using f l s c by simp
qed

end
